theory Spec2Isabelle
  imports Main "HOL-Library.Log_Nat"
begin

section \<open>JavaScript numbers\<close>

text \<open>
  A JavaScript \<^verbatim>\<open>number\<close> is an IEEE 754 binary64 value. The finite ones are carried as
  the rational they denote; every arithmetic operation computes the exact rational result
  and rounds it to the nearest binary64 value, ties to even. The two zeros are one value
  here: the program never divides by a zero and \<^verbatim>\<open>toFixed\<close> prints both alike.
\<close>

datatype jsnum = NaN | PInf | NInf | Fin rat

text \<open>\<open>expo q\<close> is the binary exponent of \<open>q\<close>: \<open>2 ^ expo q \<le> |q| < 2 ^ (expo q + 1)\<close>.\<close>

definition expo :: "rat \<Rightarrow> int" where
  "expo q = (case quotient_of \<bar>q\<bar> of (a, b) \<Rightarrow>
     let d = bitlen a - bitlen b in if 2 powi d \<le> \<bar>q\<bar> then d else d - 1)"

text \<open>The spacing of binary64 values around \<open>q\<close>: 53 significant bits, subnormal below
  \<open>2 ^ -1022\<close>.\<close>

definition ulp :: "rat \<Rightarrow> rat" where
  "ulp q = 2 powi (max (expo q) (- 1022) - 52)"

definition round_half_even :: "rat \<Rightarrow> int" where
  "round_half_even x = (let f = \<lfloor>x\<rfloor>; r = x - of_int f in
     if r < 1 / 2 then f else if 1 / 2 < r then f + 1 else if even f then f else f + 1)"

text \<open>Rounding to binary64. The rounded magnitude \<open>m * ulp q\<close> reaches \<open>2 ^ 1024\<close>, and the
  result is an infinity, exactly when the exponent is above 1023 or the significand of
  exponent 1023 rounds up to \<open>2 ^ 53\<close>.\<close>

definition rnd :: "rat \<Rightarrow> jsnum" where
  "rnd q = (if q = 0 then Fin 0 else
     let m = round_half_even (\<bar>q\<bar> / ulp q) in
     if 1024 \<le> expo q \<or> (expo q = 1023 \<and> m = 9007199254740992)
     then (if q < 0 then NInf else PInf)
     else Fin (sgn q * (of_int m * ulp q)))"

definition is_double :: "rat \<Rightarrow> bool" where
  "is_double q = (rnd q = Fin q)"

fun js_add :: "jsnum \<Rightarrow> jsnum \<Rightarrow> jsnum" where
  "js_add NaN _ = NaN"
| "js_add _ NaN = NaN"
| "js_add PInf NInf = NaN"
| "js_add NInf PInf = NaN"
| "js_add PInf _ = PInf"
| "js_add _ PInf = PInf"
| "js_add NInf _ = NInf"
| "js_add _ NInf = NInf"
| "js_add (Fin x) (Fin y) = rnd (x + y)"

fun js_sub :: "jsnum \<Rightarrow> jsnum \<Rightarrow> jsnum" where
  "js_sub NaN _ = NaN"
| "js_sub _ NaN = NaN"
| "js_sub PInf PInf = NaN"
| "js_sub NInf NInf = NaN"
| "js_sub PInf _ = PInf"
| "js_sub _ PInf = NInf"
| "js_sub NInf _ = NInf"
| "js_sub _ NInf = PInf"
| "js_sub (Fin x) (Fin y) = rnd (x - y)"

fun js_mul :: "jsnum \<Rightarrow> jsnum \<Rightarrow> jsnum" where
  "js_mul NaN _ = NaN"
| "js_mul _ NaN = NaN"
| "js_mul PInf PInf = PInf"
| "js_mul PInf NInf = NInf"
| "js_mul NInf PInf = NInf"
| "js_mul NInf NInf = PInf"
| "js_mul PInf (Fin y) = (if y = 0 then NaN else if 0 < y then PInf else NInf)"
| "js_mul NInf (Fin y) = (if y = 0 then NaN else if 0 < y then NInf else PInf)"
| "js_mul (Fin x) PInf = (if x = 0 then NaN else if 0 < x then PInf else NInf)"
| "js_mul (Fin x) NInf = (if x = 0 then NaN else if 0 < x then NInf else PInf)"
| "js_mul (Fin x) (Fin y) = rnd (x * y)"

fun js_div :: "jsnum \<Rightarrow> jsnum \<Rightarrow> jsnum" where
  "js_div NaN _ = NaN"
| "js_div _ NaN = NaN"
| "js_div PInf (Fin y) = (if 0 \<le> y then PInf else NInf)"
| "js_div NInf (Fin y) = (if 0 \<le> y then NInf else PInf)"
| "js_div PInf _ = NaN"
| "js_div NInf _ = NaN"
| "js_div (Fin x) PInf = Fin 0"
| "js_div (Fin x) NInf = Fin 0"
| "js_div (Fin x) (Fin y) =
     (if y = 0 then (if x = 0 then NaN else if 0 < x then PInf else NInf) else rnd (x / y))"

text \<open>The comparisons \<^verbatim>\<open><=\<close>, \<^verbatim>\<open><\<close> and \<^verbatim>\<open>>\<close>: false as soon as an operand is NaN.\<close>

fun js_le :: "jsnum \<Rightarrow> jsnum \<Rightarrow> bool" where
  "js_le NaN _ = False"
| "js_le _ NaN = False"
| "js_le NInf _ = True"
| "js_le _ PInf = True"
| "js_le PInf _ = False"
| "js_le _ NInf = False"
| "js_le (Fin x) (Fin y) = (x \<le> y)"

fun js_lt :: "jsnum \<Rightarrow> jsnum \<Rightarrow> bool" where
  "js_lt NaN _ = False"
| "js_lt _ NaN = False"
| "js_lt PInf _ = False"
| "js_lt _ NInf = False"
| "js_lt NInf _ = True"
| "js_lt _ PInf = True"
| "js_lt (Fin x) (Fin y) = (x < y)"

definition js_gt :: "jsnum \<Rightarrow> jsnum \<Rightarrow> bool" where
  "js_gt a b = js_lt b a"

text \<open>\<^verbatim>\<open>Number.isInteger\<close>.\<close>

fun js_isInteger :: "jsnum \<Rightarrow> bool" where
  "js_isInteger (Fin x) = (of_int \<lfloor>x\<rfloor> = x)"
| "js_isInteger _ = False"

section \<open>The calculator: \<^verbatim>\<open>onSubmit\<close>\<close>

text \<open>
  \<^verbatim>\<open>FormValues\<close> is the type the schema infers: three numbers. The component keeps the
  last result (\<^verbatim>\<open>useState<number | null>(null)\<close>) and the form keeps one error per
  field, which \<^verbatim>\<open>form.setError\<close> overwrites.
\<close>

record FormValues =
  contractValue :: jsnum
  issueYear :: jsnum
  renewalYear :: jsnum

datatype field_name = ContractValue | IssueYear | RenewalYear

record form_error =
  error_type :: string
  error_message :: string

record ui_state =
  result :: "jsnum option"
  errors :: "field_name \<rightharpoonup> form_error"

text \<open>The literal \<^verbatim>\<open>10.33\<close> denotes the binary64 value nearest to 1033/100.\<close>

definition lit_10_33 :: jsnum where
  "lit_10_33 = rnd (1033 / 100)"

definition onSubmit :: "FormValues \<Rightarrow> ui_state \<Rightarrow> ui_state" where
  "onSubmit data st =
     (let yearsDifference = js_sub (renewalYear data) (issueYear data) in
      if js_le yearsDifference (Fin 0)
      then st\<lparr>errors := (errors st)(RenewalYear \<mapsto>
             \<lparr>error_type = ''manual'',
              error_message = ''Renewal year must be greater than issue year.''\<rparr>)\<rparr>
      else
        let value1 = js_div (contractValue data) (js_mul yearsDifference (Fin 12));
            value2 = js_mul value1 lit_10_33;
            finalAnswer = js_add (js_div value2 (Fin 100)) value1
        in st\<lparr>result := Some finalAnswer\<rparr>)"

text \<open>The four steps of the specification, in its own words and grouping.\<close>

definition spec_calculate :: "FormValues \<Rightarrow> jsnum" where
  "spec_calculate data =
     (let months = js_mul (js_sub (renewalYear data) (issueYear data)) (Fin 12);
          v1 = js_div (contractValue data) months;
          v2 = js_mul v1 lit_10_33
      in js_add (js_div v2 (Fin 100)) v1)"

section \<open>Strings and number conversions of the platform\<close>

text \<open>
  All strings the component builds are ASCII, so a JavaScript string is modelled by its
  list of characters.
\<close>

text \<open>Numbers that can be large are integers throughout: digits, digit strings and the
  scaled values of \<^verbatim>\<open>toFixed\<close>.\<close>

definition digit_char :: "int \<Rightarrow> char" where
  "digit_char d = ''0123456789'' ! nat d"

definition is_digit :: "char \<Rightarrow> bool" where
  "is_digit c = (c \<in> set ''0123456789'')"

definition digit_value :: "char \<Rightarrow> int" where
  "digit_value c = int (length (takeWhile (\<lambda>d. d \<noteq> c) ''0123456789''))"

text \<open>The decimal representation of a non-negative integer.\<close>

function dec :: "int \<Rightarrow> string" where
  "dec n = (if n < 10 then [digit_char n] else dec (n div 10) @ [digit_char (n mod 10)])"
  by pat_completeness auto
termination
  by (relation "measure nat") auto

declare dec.simps [simp del]

text \<open>The last three decimal digits of a non-negative integer.\<close>

definition last3 :: "int \<Rightarrow> string" where
  "last3 n = [digit_char (n div 100 mod 10), digit_char (n div 10 mod 10), digit_char (n mod 10)]"

definition digits_value :: "string \<Rightarrow> int" where
  "digits_value ds = foldl (\<lambda>acc c. 10 * acc + digit_value c) 0 ds"

fun js_neg :: "jsnum \<Rightarrow> jsnum" where
  "js_neg NaN = NaN"
| "js_neg PInf = NInf"
| "js_neg NInf = PInf"
| "js_neg (Fin x) = Fin (- x)"

subsection \<open>\<^verbatim>\<open>Number::toString\<close>\<close>

text \<open>
  For a positive finite value the standard takes integers \<open>s\<close>, \<open>k\<close>, \<open>n\<close> with
  \<open>10 ^ (k - 1) \<le> s < 10 ^ k\<close> such that \<open>s * 10 ^ (n - k)\<close> rounds to the value and \<open>k\<close> is
  as small as possible; of several such \<open>s\<close> the one closest to the value is taken, the
  smaller on a tie. \<open>dec_exponent a\<close> is the \<open>n\<close> with \<open>10 ^ (n - 1) \<le> a < 10 ^ n\<close>; rounding
  up to a power of ten can make \<open>n\<close> one larger.
\<close>

definition dec_exponent :: "rat \<Rightarrow> int" where
  "dec_exponent a =
     (if 1 \<le> a then int (length (dec \<lfloor>a\<rfloor>))
      else - int (length (takeWhile (\<lambda>j. a * 10 ^ j < 1) [1..<400])))"

definition is_candidate :: "rat \<Rightarrow> int \<Rightarrow> nat \<Rightarrow> int \<Rightarrow> bool" where
  "is_candidate a s k n =
     (10 ^ (k - 1) \<le> s \<and> s < 10 ^ k \<and> rnd (of_int s * 10 powi (n - int k)) = Fin a)"

definition decimal_candidates :: "rat \<Rightarrow> nat \<Rightarrow> int \<Rightarrow> (int \<times> nat \<times> int) list" where
  "decimal_candidates a k n =
     (let lo = \<lfloor>a / 10 powi (n - int k)\<rfloor> in
      (if is_candidate a lo k n then [(lo, k, n)] else [])
      @ (if is_candidate a (lo + 1) k n then [(lo + 1, k, n)] else []))"

definition decimal_distance :: "rat \<Rightarrow> int \<times> nat \<times> int \<Rightarrow> rat" where
  "decimal_distance a c = (case c of (s, k, n) \<Rightarrow> \<bar>of_int s * 10 powi (n - int k) - a\<bar>)"

fun closest :: "rat \<Rightarrow> int \<times> nat \<times> int \<Rightarrow> (int \<times> nat \<times> int) list \<Rightarrow> int \<times> nat \<times> int" where
  "closest a c [] = c"
| "closest a c (d # ds) =
     closest a (if decimal_distance a d < decimal_distance a c then d else c) ds"

fun first_decimal :: "rat \<Rightarrow> int \<Rightarrow> nat list \<Rightarrow> int \<times> nat \<times> int" where
  "first_decimal a n0 [] = (0, 1, 0)"
| "first_decimal a n0 (k # ks) =
     (case decimal_candidates a k n0 @ decimal_candidates a k (n0 + 1) of
        [] \<Rightarrow> first_decimal a n0 ks
      | c # cs \<Rightarrow> closest a c cs)"

definition shortest_decimal :: "rat \<Rightarrow> int \<times> nat \<times> int" where
  "shortest_decimal a = first_decimal a (dec_exponent a) [1..<18]"

definition ToString_pos :: "rat \<Rightarrow> string" where
  "ToString_pos a = (case shortest_decimal a of (s, k, n) \<Rightarrow>
     let ds = dec s in
     if int k \<le> n \<and> n \<le> 21 then ds @ replicate (nat (n - int k)) CHR ''0''
     else if 0 < n \<and> n \<le> 21 then take (nat n) ds @ ''.'' @ drop (nat n) ds
     else if - 6 < n \<and> n \<le> 0 then ''0.'' @ replicate (nat (- n)) CHR ''0'' @ ds
     else
       let ex = (if 0 \<le> n - 1 then ''+'' else ''-'') @ dec \<bar>n - 1\<bar> in
       if k = 1 then ds @ ''e'' @ ex else take 1 ds @ ''.'' @ drop 1 ds @ ''e'' @ ex)"

fun ToString :: "jsnum \<Rightarrow> string" where
  "ToString NaN = ''NaN''"
| "ToString PInf = ''Infinity''"
| "ToString NInf = ''-Infinity''"
| "ToString (Fin x) =
     (if x = 0 then ''0'' else if x < 0 then ''-'' @ ToString_pos (- x) else ToString_pos x)"

subsection \<open>\<^verbatim>\<open>Number.prototype.toFixed\<close> with three fraction digits\<close>

text \<open>
  The steps of the standard for \<^verbatim>\<open>x.toFixed(3)\<close>: a value that is not finite is printed by
  \<^verbatim>\<open>ToString\<close>; the sign is split off; a magnitude of at least \<open>10 ^ 21\<close> is printed by
  \<^verbatim>\<open>ToString\<close>; otherwise \<open>n\<close> is the integer nearest to \<open>1000 * x\<close>, the larger on a tie,
  its digits are padded with zeros to four and the point is put before the last three.
\<close>

fun toFixed3 :: "jsnum \<Rightarrow> string" where
  "toFixed3 NaN = ''NaN''"
| "toFixed3 PInf = ''Infinity''"
| "toFixed3 NInf = ''-Infinity''"
| "toFixed3 (Fin x) =
     (let s = (if x < 0 then ''-'' else ''''); a = \<bar>x\<bar> in
      if 10 ^ 21 \<le> a then s @ ToString_pos a
      else
        let n = \<lfloor>a * 1000 + 1 / 2\<rfloor>;
            m = dec n;
            m' = (if length m \<le> 3 then replicate (3 + 1 - length m) CHR ''0'' @ m else m);
            k = length m'
        in s @ take (k - 3) m' @ ''.'' @ drop (k - 3) m')"

subsection \<open>\<^verbatim>\<open>String.prototype.split\<close> and \<^verbatim>\<open>Array.prototype.join\<close>\<close>

text \<open>Splitting at a one-character separator yields at least one piece: the first piece
  and the list of the others.\<close>

fun split_on :: "char \<Rightarrow> string \<Rightarrow> string \<times> string list" where
  "split_on c [] = ([], [])"
| "split_on c (x # xs) =
     (case split_on c xs of (w, ws) \<Rightarrow> if x = c then ([], w # ws) else (x # w, ws))"

definition split_list :: "char \<Rightarrow> string \<Rightarrow> string list" where
  "split_list c s = (case split_on c s of (w, ws) \<Rightarrow> w # ws)"

text \<open>\<^verbatim>\<open>s.split('')\<close>: one string per character.\<close>

definition split_chars :: "string \<Rightarrow> string list" where
  "split_chars s = map (\<lambda>c. [c]) s"

fun join :: "string \<Rightarrow> string list \<Rightarrow> string" where
  "join sep [] = []"
| "join sep [w] = w"
| "join sep (w # v # ws) = w @ sep @ join sep (v # ws)"

subsection \<open>\<^verbatim>\<open>Number(string)\<close>\<close>

text \<open>
  The decimal literals of \<^verbatim>\<open>StringToNumber\<close>: an optional sign, then \<^verbatim>\<open>Infinity\<close> or digits
  with an optional fraction and an optional exponent; the empty string is 0 and anything
  else is NaN. The strings converted here are pieces of a \<^verbatim>\<open>toFixed\<close> result, which hold no
  white space and no radix prefix, so trimming and the \<^verbatim>\<open>0x\<close>, \<^verbatim>\<open>0o\<close>, \<^verbatim>\<open>0b\<close> literals are
  left out.
\<close>

definition parse_exponent :: "string \<Rightarrow> int option" where
  "parse_exponent s = (case s of
       [] \<Rightarrow> Some 0
     | c # t \<Rightarrow>
         if c = CHR ''e'' \<or> c = CHR ''E'' then
           (case (case t of
                    [] \<Rightarrow> (1, [])
                  | d # u \<Rightarrow> if d = CHR ''+'' then (1, u)
                             else if d = CHR ''-'' then (- 1, u) else (1, t)) of
              (sg, ds) \<Rightarrow>
                if ds \<noteq> [] \<and> list_all is_digit ds then Some (sg * digits_value ds)
                else None)
         else None)"

definition parse_unsigned :: "string \<Rightarrow> jsnum option" where
  "parse_unsigned s =
     (if s = ''Infinity'' then Some PInf
      else
        let ip = takeWhile is_digit s; r1 = dropWhile is_digit s in
        case (case r1 of
                [] \<Rightarrow> ([], [])
              | c # t \<Rightarrow> if c = CHR ''.'' then (takeWhile is_digit t, dropWhile is_digit t)
                         else ([], r1)) of
          (fp, r2) \<Rightarrow>
            if ip = [] \<and> fp = [] then None
            else (case parse_exponent r2 of
                    None \<Rightarrow> None
                  | Some e \<Rightarrow>
                      Some (rnd ((of_int (digits_value ip)
                                   + of_int (digits_value fp) / 10 ^ length fp) * 10 powi e))))"

definition StringToNumber :: "string \<Rightarrow> jsnum" where
  "StringToNumber s = (case s of
       [] \<Rightarrow> Fin 0
     | c # t \<Rightarrow>
         if c = CHR ''-'' then (case parse_unsigned t of None \<Rightarrow> NaN | Some v \<Rightarrow> js_neg v)
         else if c = CHR ''+'' then (case parse_unsigned t of None \<Rightarrow> NaN | Some v \<Rightarrow> v)
         else (case parse_unsigned s of None \<Rightarrow> NaN | Some v \<Rightarrow> v))"

subsection \<open>\<^verbatim>\<open>toUpperCase\<close>\<close>

text \<open>A string is a list of bytes here, and a character of ASCII is one byte with the
  top bit clear. On ASCII \<^verbatim>\<open>toUpperCase\<close> changes the letters \<^verbatim>\<open>a\<close> to \<^verbatim>\<open>z\<close> and nothing else;
  the model is meant for ASCII strings, which is what \<^verbatim>\<open>toFixed\<close> and the English words of
  \<^verbatim>\<open>toWords\<close> are.\<close>

definition is_ascii :: "char \<Rightarrow> bool" where
  "is_ascii c = (\<not> digit7 c)"

definition toUpperCase_char :: "char \<Rightarrow> char" where
  "toUpperCase_char c =
     (case map_of (zip ''abcdefghijklmnopqrstuvwxyz'' ''ABCDEFGHIJKLMNOPQRSTUVWXYZ'') c of
        None \<Rightarrow> c | Some u \<Rightarrow> u)"

subsection \<open>\<^verbatim>\<open>Intl.NumberFormat('en-US')\<close> with exactly three fraction digits\<close>

text \<open>
  The formatter does not round the exact binary value: it takes the shortest decimal that
  denotes the number (the digits \<^verbatim>\<open>ToString\<close> prints), rounds that decimal to three fraction
  digits, ties away from zero, and prints the integer digits in groups of three separated
  by commas. The infinity sign is given by its three UTF-8 bytes. A negative zero would be
  printed with a minus sign; the zero of this model is the positive one.
\<close>

fun group_rev :: "string \<Rightarrow> string" where
  "group_rev (a # b # c # d # ds) = a # b # c # CHR '','' # group_rev (d # ds)"
| "group_rev ds = ds"

definition group_thousands :: "string \<Rightarrow> string" where
  "group_thousands ds = rev (group_rev (rev ds))"

definition shortest_value :: "rat \<Rightarrow> rat" where
  "shortest_value a =
     (if a = 0 then 0
      else case shortest_decimal a of (s, k, n) \<Rightarrow> of_int s * 10 powi (n - int k))"

definition fixed3_grouped :: "rat \<Rightarrow> string" where
  "fixed3_grouped a =
     (let n = \<lfloor>shortest_value a * 1000 + 1 / 2\<rfloor> in
      group_thousands (dec (n div 1000)) @ ''.'' @ last3 n)"

fun format_decimal3 :: "jsnum \<Rightarrow> string" where
  "format_decimal3 NaN = ''NaN''"
| "format_decimal3 PInf = [CHR 0xE2, CHR 0x88, CHR 0x9E]"
| "format_decimal3 NInf = ''-'' @ [CHR 0xE2, CHR 0x88, CHR 0x9E]"
| "format_decimal3 (Fin x) = (if x < 0 then ''-'' else [])
     @ fixed3_grouped \<bar>x\<bar>"

section \<open>The wordifier: \<^verbatim>\<open>resultInWords\<close>\<close>

text \<open>
  \<^verbatim>\<open>toWords\<close> is imported from the package \<^verbatim>\<open>number-to-words\<close>; \<^verbatim>\<open>resultInWords\<close> takes it
  as the parameter \<open>tw\<close>, a function that returns a string or throws. A call on a missing
  fractional part (\<^verbatim>\<open>undefined.split\<close>) throws a \<^verbatim>\<open>TypeError\<close>; whatever \<open>tw\<close> throws passes
  through. \<^verbatim>\<open>Array.prototype.map\<close> calls \<open>tw\<close> from left to right and stops at the first
  throw.
\<close>

datatype 'e thrown = TypeError | Thrown 'e

fun map_throw :: "('a \<Rightarrow> 'e + 'b) \<Rightarrow> 'a list \<Rightarrow> 'e + 'b list" where
  "map_throw f [] = Inr []"
| "map_throw f (x # xs) =
     (case f x of
        Inl e \<Rightarrow> Inl e
      | Inr y \<Rightarrow> (case map_throw f xs of Inl e \<Rightarrow> Inl e | Inr ys \<Rightarrow> Inr (y # ys)))"

text \<open>\<^verbatim>\<open>word.charAt(0).toUpperCase() + word.slice(1)\<close>\<close>

definition capitalize :: "string \<Rightarrow> string" where
  "capitalize word = map toUpperCase_char (take 1 word) @ drop 1 word"

definition title_case :: "string \<Rightarrow> string" where
  "title_case words = join '' '' (map capitalize (split_list CHR '' '' words))"

definition resultInWords :: "(jsnum \<Rightarrow> 'e + string) \<Rightarrow> jsnum option \<Rightarrow> 'e thrown + string" where
  "resultInWords tw num = (case num of
       None \<Rightarrow> Inr ''''
     | Some x \<Rightarrow>
         let fixedNum = toFixed3 x in
         case split_on CHR ''.'' fixedNum of (integerPart, rest) \<Rightarrow>
           (case tw (StringToNumber integerPart) of
              Inl e \<Rightarrow> Inl (Thrown e)
            | Inr integerWords \<Rightarrow>
                (case rest of
                   [] \<Rightarrow> Inl TypeError
                 | fractionalPart # _ \<Rightarrow>
                     (case map_throw (\<lambda>digit. tw (StringToNumber digit))
                             (split_chars fractionalPart) of
                        Inl e \<Rightarrow> Inl (Thrown e)
                      | Inr ws \<Rightarrow>
                          let fractionalWords = join '' '' ws;
                              words = integerWords @ '' point '' @ fractionalWords
                          in Inr (title_case words)))))"

subsection \<open>The package \<^verbatim>\<open>number-to-words\<close>\<close>

text \<open>
  The package is a dependency and not part of the repository's sources. The model below
  follows its published \<^verbatim>\<open>toWords\<close>: the argument goes through \<^verbatim>\<open>parseInt(number, 10)\<close>; a
  result that is not finite throws a \<^verbatim>\<open>TypeError\<close>, one beyond \<open>2 ^ 53 - 1\<close> in magnitude a
  \<^verbatim>\<open>RangeError\<close>; \<^verbatim>\<open>generateWords\<close> then collects one phrase per group, with a comma after
  each group from the thousands upwards, a hyphen between tens and units, and \<^verbatim>\<open>minus\<close>
  before a negative number.
\<close>

datatype lib_error = LibTypeError | LibRangeError

text \<open>\<^verbatim>\<open>parseInt(string, 10)\<close>: an optional sign and the leading decimal digits; NaN when
  there is no digit. (The strings parsed here come from \<^verbatim>\<open>ToString\<close> and hold no white
  space.)\<close>

definition parseInt10 :: "string \<Rightarrow> jsnum" where
  "parseInt10 s =
     (case (case s of
              [] \<Rightarrow> (1, [])
            | c # t \<Rightarrow> if c = CHR ''-'' then (- 1, t)
                       else if c = CHR ''+'' then (1, t) else (1, s)) of
        (sg, t) \<Rightarrow>
          let ds = takeWhile is_digit t in
          if ds = [] then NaN else rnd (sg * of_int (digits_value ds)))"

definition LESS_THAN_TWENTY :: "string list" where
  "LESS_THAN_TWENTY = [''zero'', ''one'', ''two'', ''three'', ''four'', ''five'', ''six'',
     ''seven'', ''eight'', ''nine'', ''ten'', ''eleven'', ''twelve'', ''thirteen'',
     ''fourteen'', ''fifteen'', ''sixteen'', ''seventeen'', ''eighteen'', ''nineteen'']"

definition TENTHS_LESS_THAN_HUNDRED :: "string list" where
  "TENTHS_LESS_THAN_HUNDRED = [''zero'', ''ten'', ''twenty'', ''thirty'', ''forty'',
     ''fifty'', ''sixty'', ''seventy'', ''eighty'', ''ninety'']"

text \<open>\<^verbatim>\<open>.replace(/,$/, '')\<close>\<close>

definition strip_final_comma :: "string \<Rightarrow> string" where
  "strip_final_comma s = (if s \<noteq> [] \<and> last s = CHR '','' then butlast s else s)"

function generateWords :: "int \<Rightarrow> string list option \<Rightarrow> string" where
  "generateWords number ws =
     (if number = 0
      then (case ws of None \<Rightarrow> ''zero'' | Some l \<Rightarrow> strip_final_comma (join '' '' l))
      else
        let l0 = (case ws of None \<Rightarrow> [] | Some l \<Rightarrow> l);
            l = (if number < 0 then l0 @ [''minus''] else l0);
            n = \<bar>number\<bar>
        in
        if n < 20 then generateWords 0 (Some (l @ [LESS_THAN_TWENTY ! nat n]))
        else if n < 100 then
          generateWords 0 (Some (l @ [
            if n mod 10 \<noteq> 0
            then TENTHS_LESS_THAN_HUNDRED ! nat (n div 10) @ ''-'' @ LESS_THAN_TWENTY ! nat (n mod 10)
            else TENTHS_LESS_THAN_HUNDRED ! nat (n div 10)]))
        else if n < 1000 then
          generateWords (n mod 100)
            (Some (l @ [generateWords (n div 100) None @ '' hundred'']))
        else if n < 1000000 then
          generateWords (n mod 1000)
            (Some (l @ [generateWords (n div 1000) None @ '' thousand,'']))
        else if n < 1000000000 then
          generateWords (n mod 1000000)
            (Some (l @ [generateWords (n div 1000000) None @ '' million,'']))
        else if n < 1000000000000 then
          generateWords (n mod 1000000000)
            (Some (l @ [generateWords (n div 1000000000) None @ '' billion,'']))
        else if n < 1000000000000000 then
          generateWords (n mod 1000000000000)
            (Some (l @ [generateWords (n div 1000000000000) None @ '' trillion,'']))
        else
          generateWords (n mod 1000000000000000)
            (Some (l @ [generateWords (n div 1000000000000000) None @ '' quadrillion,''])))"
  by pat_completeness auto
termination
  by (relation "measure (\<lambda>(number, ws). nat \<bar>number\<bar>)") auto

declare generateWords.simps [simp del]

definition toWords :: "jsnum \<Rightarrow> lib_error + string" where
  "toWords number = (case parseInt10 (ToString number) of
       Fin n \<Rightarrow>
         if 9007199254740991 < \<bar>n\<bar> then Inl LibRangeError
         else Inr (generateWords \<lfloor>n\<rfloor> None)
     | _ \<Rightarrow> Inl LibTypeError)"

subsection \<open>Title case in the words of the specification\<close>

text \<open>The specification asks to capitalize the first letter of each space-separated
  token. Written on its own, without the string methods of the code: a token is left as
  it is unless it starts with a lower-case letter, which is replaced by the upper-case
  letter at the same place of the alphabet.\<close>

definition lower_letters :: string where
  "lower_letters = ''abcdefghijklmnopqrstuvwxyz''"

definition upper_letters :: string where
  "upper_letters = ''ABCDEFGHIJKLMNOPQRSTUVWXYZ''"

definition spec_capital :: "string \<Rightarrow> string" where
  "spec_capital w = (case w of
       [] \<Rightarrow> []
     | c # cs \<Rightarrow>
         (if c \<in> set lower_letters
          then upper_letters ! length (takeWhile (\<lambda>d. d \<noteq> c) lower_letters)
          else c) # cs)"

section \<open>The schema: \<^verbatim>\<open>formSchema\<close>\<close>

text \<open>
  The schema is written with the validation library zod (version 3). Every field is
  \<^verbatim>\<open>z.coerce.number\<close>: the raw input first goes through \<^verbatim>\<open>Number(...)\<close>, so the model starts
  from the three coerced numbers; a field that is missing or not numeric arrives as NaN.
  A number schema rejects NaN with an \<^verbatim>\<open>invalid_type\<close> issue and aborts; otherwise it runs
  all its checks in the order they are chained, and every failing check adds an issue and
  marks the result dirty. An object aborts when a field aborted. A refinement runs unless
  the schema it refines aborted.
\<close>

datatype zod_code = invalid_type | too_small | too_big | custom

text \<open>An issue: its code, the field it is attached to, and the message when the schema
  gives one (otherwise the library's default text).\<close>

record issue =
  issue_code :: zod_code
  issue_path :: field_name
  issue_message :: "string option"

datatype parse_status = Valid | Dirty | Aborted

datatype number_check =
    CheckInt
  | CheckMin jsnum bool string
  | CheckMax jsnum bool string

text \<open>\<open>CheckMin v inclusive message\<close> fails when the input is below \<open>v\<close>, or equal to it when the
  bound is exclusive; \<open>CheckMax\<close> likewise.\<close>

fun run_check :: "field_name \<Rightarrow> jsnum \<Rightarrow> number_check \<Rightarrow> issue list" where
  "run_check p x CheckInt =
     (if js_isInteger x then []
      else [\<lparr>issue_code = invalid_type, issue_path = p, issue_message = None\<rparr>])"
| "run_check p x (CheckMin v inclusive msg) =
     (if (if inclusive then js_lt x v else js_le x v)
      then [\<lparr>issue_code = too_small, issue_path = p, issue_message = Some msg\<rparr>] else [])"
| "run_check p x (CheckMax v inclusive msg) =
     (if (if inclusive then js_gt x v else js_le v x)
      then [\<lparr>issue_code = too_big, issue_path = p, issue_message = Some msg\<rparr>] else [])"

definition coerce_number :: "number_check list \<Rightarrow> field_name \<Rightarrow> jsnum \<Rightarrow> parse_status \<times> issue list" where
  "coerce_number checks p x =
     (if x = NaN
      then (Aborted, [\<lparr>issue_code = invalid_type, issue_path = p, issue_message = None\<rparr>])
      else
        let found = concat (map (run_check p x) checks)
        in (if found = [] then Valid else Dirty, found))"

text \<open>The three field schemas, as chained in the source. \<open>cy\<close> is the constant
  \<^verbatim>\<open>currentYear\<close>.\<close>

definition contractValue_schema :: "jsnum \<Rightarrow> parse_status \<times> issue list" where
  "contractValue_schema =
     coerce_number [CheckMin (Fin 0) False ''Contract value must be a positive number.'']
       ContractValue"

definition issueYear_schema :: "jsnum \<Rightarrow> jsnum \<Rightarrow> parse_status \<times> issue list" where
  "issueYear_schema cy =
     coerce_number [CheckInt, CheckMin (Fin 1900) True ''Year must be 1900 or later.'',
                    CheckMax cy True ''Year cannot be in the future.''] IssueYear"

definition renewalYear_schema :: "jsnum \<Rightarrow> parse_status \<times> issue list" where
  "renewalYear_schema =
     coerce_number [CheckInt, CheckMin (Fin 1900) True ''Year must be 1900 or later.''] RenewalYear"

text \<open>The issues of the three fields, in the order of the object's keys.\<close>

definition field_issues :: "jsnum \<Rightarrow> FormValues \<Rightarrow> issue list" where
  "field_issues cy raw =
     snd (contractValue_schema (contractValue raw))
     @ snd (issueYear_schema cy (issueYear raw))
     @ snd (renewalYear_schema (renewalYear raw))"

definition object_status :: "jsnum \<Rightarrow> FormValues \<Rightarrow> parse_status" where
  "object_status cy raw =
     (let sts = [fst (contractValue_schema (contractValue raw)),
                 fst (issueYear_schema cy (issueYear raw)),
                 fst (renewalYear_schema (renewalYear raw))]
      in if Aborted \<in> set sts then Aborted else if Dirty \<in> set sts then Dirty else Valid)"

definition renewal_issue :: issue where
  "renewal_issue = \<lparr>issue_code = custom, issue_path = RenewalYear,
     issue_message = Some ''Renewal year must be after the issue year.''\<rparr>"

definition formSchema :: "jsnum \<Rightarrow> FormValues \<Rightarrow> parse_status \<times> issue list" where
  "formSchema cy raw =
     (if object_status cy raw = Aborted then (Aborted, field_issues cy raw)
      else if js_gt (renewalYear raw) (issueYear raw)
      then (object_status cy raw, field_issues cy raw)
      else (Dirty, field_issues cy raw @ [renewal_issue]))"

datatype parse_result = Success FormValues | Failure "issue list"

definition safeParse :: "jsnum \<Rightarrow> FormValues \<Rightarrow> parse_result" where
  "safeParse cy raw =
     (case formSchema cy raw of (Valid, _) \<Rightarrow> Success raw | (_, found) \<Rightarrow> Failure found)"

subsection \<open>The module constant \<^verbatim>\<open>currentYear\<close>\<close>

text \<open>
  \<^verbatim>\<open>const currentYear = new Date().getFullYear()\<close> stands at the top level of the module: it
  is evaluated once, when the module is loaded, and the schema is built from its value.
  The clock is an input of the model: the calendar year it shows when the module is loaded,
  and the year it shows when a validation is run.
\<close>

record loaded_module =
  currentYear :: jsnum

definition load_module :: "int \<Rightarrow> loaded_module" where
  "load_module year_at_load = \<lparr>currentYear = Fin (of_int year_at_load)\<rparr>"

definition validate :: "loaded_module \<Rightarrow> int \<Rightarrow> FormValues \<Rightarrow> parse_result" where
  "validate m year_at_call raw = safeParse (currentYear m) raw"

section \<open>Facts about rounding\<close>

declare powi_numeral_reduce [simp del] powi_minus_numeral_reduce [simp del]

lemma two_powi_pos: "0 < (2::rat) powi n"
  by (simp add: power_int_def)

lemma two_powi_less_cancel: "(2::rat) powi a < 2 powi b \<Longrightarrow> a < b"
proof (rule ccontr)
  assume lt: "(2::rat) powi a < 2 powi b" and "\<not> a < b"
  then have "b \<le> a" by simp
  then have "(2::rat) powi b \<le> 2 powi a" by (rule power_int_increasing) simp
  with lt show False by simp
qed

lemma two_powi_nat: "0 \<le> n \<Longrightarrow> (2::rat) powi n = of_int (2 ^ nat n)"
  by (simp add: power_int_def)

lemma two_powi_add: "(2::rat) powi (a + b) = 2 powi a * 2 powi b"
  by (rule power_int_add) simp

lemma bitlen_powi_bounds:
  assumes "0 < a"
  shows "(2::rat) powi (bitlen a - 1) \<le> of_int a" and "of_int a < (2::rat) powi (bitlen a)"
proof -
  from assms have pos: "1 \<le> bitlen a"
    using bitlen_eq_zero_iff [of a] bitlen_nonneg [of a] by linarith
  from bitlen_bounds [OF assms]
  have lo: "2 ^ nat (bitlen a - 1) \<le> a" and hi: "a < 2 ^ nat (bitlen a)" by simp_all
  from pos have "(2::rat) powi (bitlen a - 1) = of_int (2 ^ nat (bitlen a - 1))"
    by (intro two_powi_nat) simp
  also have "\<dots> \<le> of_int a" using lo by (simp only: of_int_le_iff)
  finally show "(2::rat) powi (bitlen a - 1) \<le> of_int a" .
  have "(of_int a :: rat) < of_int (2 ^ nat (bitlen a))" using hi by (simp only: of_int_less_iff)
  also from pos have "\<dots> = (2::rat) powi (bitlen a)"
    by (subst two_powi_nat) simp_all
  finally show "of_int a < (2::rat) powi (bitlen a)" .
qed

lemma expo_bounds:
  assumes "q \<noteq> 0"
  shows "2 powi (expo q) \<le> \<bar>q\<bar>" and "\<bar>q\<bar> < 2 powi (expo q + 1)"
proof -
  obtain a b where ab: "quotient_of \<bar>q\<bar> = (a, b)" by (cases "quotient_of \<bar>q\<bar>")
  then have b: "0 < b" by (rule quotient_of_denom_pos)
  from ab have q: "\<bar>q\<bar> = of_int a / of_int b" by (rule quotient_of_div)
  from assms have "0 < \<bar>q\<bar>" by simp
  with q b have a: "0 < a" by (simp add: zero_less_divide_iff)
  define d where "d = bitlen a - bitlen b"
  have lo: "(2::rat) powi (d - 1) < \<bar>q\<bar>"
  proof -
    have "(2::rat) powi (d - 1) * of_int b < 2 powi (d - 1) * 2 powi (bitlen b)"
      using bitlen_powi_bounds(2) [OF b] two_powi_pos by simp
    also have "\<dots> = 2 powi (bitlen a - 1)"
      by (simp add: d_def two_powi_add [symmetric])
    also have "\<dots> \<le> of_int a" by (rule bitlen_powi_bounds(1) [OF a])
    finally show ?thesis using b by (simp add: q pos_less_divide_eq)
  qed
  have hi: "\<bar>q\<bar> < (2::rat) powi (d + 1)"
  proof -
    have "(of_int a :: rat) < 2 powi (bitlen a)" by (rule bitlen_powi_bounds(2) [OF a])
    also have "\<dots> = 2 powi (d + 1) * 2 powi (bitlen b - 1)"
      by (simp add: d_def two_powi_add [symmetric])
    also have "\<dots> \<le> 2 powi (d + 1) * of_int b"
      using bitlen_powi_bounds(1) [OF b] two_powi_pos [of "d + 1"] by simp
    finally show ?thesis using b by (simp add: q pos_divide_less_eq)
  qed
  have e: "expo q = (if 2 powi d \<le> \<bar>q\<bar> then d else d - 1)"
    by (simp add: expo_def ab d_def Let_def)
  show "2 powi (expo q) \<le> \<bar>q\<bar>" using lo by (simp add: e)
  show "\<bar>q\<bar> < 2 powi (expo q + 1)" using hi by (simp add: e)
qed

lemma expo_unique:
  assumes "2 powi e \<le> \<bar>q\<bar>" and "\<bar>q\<bar> < 2 powi (e + 1)"
  shows "expo q = e"
proof -
  from assms(1) two_powi_pos [of e] have "0 < \<bar>q\<bar>" by linarith
  then have nz: "q \<noteq> 0" by simp
  from expo_bounds(1) [OF nz] assms(2) have "(2::rat) powi (expo q) < 2 powi (e + 1)" by simp
  then have "expo q < e + 1" by (rule two_powi_less_cancel)
  moreover from expo_bounds(2) [OF nz] assms(1) have "(2::rat) powi e < 2 powi (expo q + 1)"
    by simp
  then have "e < expo q + 1" by (rule two_powi_less_cancel)
  ultimately show ?thesis by simp
qed

lemma expo_mono:
  assumes "p \<noteq> 0" and "\<bar>p\<bar> \<le> \<bar>q\<bar>"
  shows "expo p \<le> expo q"
proof -
  from assms have nz: "q \<noteq> 0" by auto
  from expo_bounds(1) [OF assms(1)] assms(2) expo_bounds(2) [OF nz]
  have "(2::rat) powi (expo p) < 2 powi (expo q + 1)" by simp
  then have "expo p < expo q + 1" by (rule two_powi_less_cancel)
  then show ?thesis by simp
qed

lemma round_half_even_of_int: "round_half_even (of_int k) = k"
  by (simp add: round_half_even_def)

lemma round_half_even_le:
  assumes "x \<le> of_int k"
  shows "round_half_even x \<le> k"
proof (cases "\<lfloor>x\<rfloor> = k")
  case True
  then have "of_int k \<le> x" using of_int_floor_le [of x] by simp
  with assms have "x = of_int k" by simp
  then show ?thesis by (simp add: round_half_even_of_int)
next
  case False
  moreover from assms have "\<lfloor>x\<rfloor> \<le> k" by (simp add: floor_le_iff)
  ultimately have "\<lfloor>x\<rfloor> + 1 \<le> k" by simp
  then show ?thesis by (simp add: round_half_even_def Let_def)
qed

lemma round_half_even_ge:
  assumes "of_int k \<le> x"
  shows "k \<le> round_half_even x"
proof -
  from assms have "k \<le> \<lfloor>x\<rfloor>" by (simp add: le_floor_iff)
  then show ?thesis by (simp add: round_half_even_def Let_def)
qed

lemma ulp_pos: "0 < ulp q"
  by (simp add: ulp_def two_powi_pos)

lemma two_powi_52: "(2::rat) powi 52 = 4503599627370496"
  by (simp add: two_powi_nat)

lemma two_powi_53: "(2::rat) powi 53 = 9007199254740992"
  by (simp add: two_powi_nat)

lemma two_powi_split: "(2::rat) powi e = 2 powi 52 * 2 powi (e - 52)"
  using two_powi_add [of 52 "e - 52"] by simp

lemma expo_grid:
  assumes "4503599627370496 \<le> K" and "K < 9007199254740992"
  shows "expo (of_int K * 2 powi j) = j + 52"
proof (rule expo_unique)
  have K: "(4503599627370496::rat) \<le> of_int K" "(of_int K :: rat) < 9007199254740992"
    using assms by linarith+
  have abs: "\<bar>of_int K * (2::rat) powi j\<bar> = of_int K * 2 powi j"
    using K two_powi_pos [of j] by (simp add: abs_mult)
  have "(2::rat) powi (j + 52) = 4503599627370496 * 2 powi j"
    by (simp add: two_powi_add two_powi_52)
  also have "\<dots> \<le> of_int K * 2 powi j"
    using K(1) two_powi_pos [of j] by (simp add: mult_right_mono)
  finally show "2 powi (j + 52) \<le> \<bar>of_int K * (2::rat) powi j\<bar>" by (simp only: abs)
  have "of_int K * (2::rat) powi j < 9007199254740992 * 2 powi j"
    using K(2) two_powi_pos [of j] by (simp add: mult_strict_right_mono)
  also have "\<dots> = 2 powi (j + 52 + 1)"
    by (simp add: two_powi_add two_powi_53 add.assoc)
  finally show "\<bar>of_int K * (2::rat) powi j\<bar> < 2 powi (j + 52 + 1)" by (simp only: abs)
qed

lemma ulp_grid:
  assumes "4503599627370496 \<le> K" and "K < 9007199254740992" and "- 1074 \<le> j"
  shows "ulp (of_int K * 2 powi j) = 2 powi j"
proof -
  from assms(3) have "max (j + 52) (- 1022) - 52 = j" by simp
  then show ?thesis using assms(1,2) by (simp add: ulp_def expo_grid)
qed

lemma rnd_pos:
  assumes "0 < q"
  shows "rnd q = (if 1024 \<le> expo q \<or>
            (expo q = 1023 \<and> round_half_even (q / ulp q) = 9007199254740992)
          then PInf else Fin (of_int (round_half_even (q / ulp q)) * ulp q))"
  using assms by (simp add: rnd_def Let_def)

lemma rnd_upper:
  assumes q: "0 < q" "q \<le> B" and B: "B = of_int K * ulp B" and fin: "expo B \<le> 1023"
  shows "\<exists>r. rnd q = Fin r \<and> 0 \<le> r \<and> r \<le> B"
proof -
  from q have nz: "q \<noteq> 0" and Bpos: "0 < B" by simp_all
  from q have "expo q \<le> expo B" by (intro expo_mono) simp_all
  define e where "e = max (expo q) (- 1022)"
  define eB where "eB = max (expo B) (- 1022)"
  define u where "u = ulp q"
  define m where "m = round_half_even (q / u)"
  have le: "e \<le> eB" using \<open>expo q \<le> expo B\<close> by (simp add: e_def eB_def)
  have u: "u = 2 powi (e - 52)" by (simp add: u_def ulp_def e_def)
  have upos: "0 < u" by (simp add: u_def ulp_pos)
  have "ulp B = 2 powi ((eB - e) + (e - 52))" by (simp add: ulp_def eB_def)
  also have "\<dots> = 2 powi (eB - e) * u" by (simp only: two_powi_add u)
  also have "\<dots> = of_int (2 ^ nat (eB - e)) * u" using le by (simp add: two_powi_nat)
  finally have Bu: "B = of_int (K * 2 ^ nat (eB - e)) * u"
    using B by simp
  have "q \<le> of_int (K * 2 ^ nat (eB - e)) * u"
    using q(2) by (simp only: Bu [symmetric])
  then have "q / u \<le> of_int (K * 2 ^ nat (eB - e))"
    using upos by (simp only: pos_divide_le_eq)
  then have mK: "m \<le> K * 2 ^ nat (eB - e)" unfolding m_def by (rule round_half_even_le)
  have "(of_int 0 :: rat) \<le> q / u" using q(1) upos by simp
  then have m0: "0 \<le> m" unfolding m_def by (rule round_half_even_ge)
  have rB: "of_int m * u \<le> B"
    using mK upos by (simp only: Bu mult_le_cancel_right_pos of_int_le_iff)
  have r0: "0 \<le> of_int m * u" using m0 upos by simp
  have no_overflow: "\<not> (1024 \<le> expo q \<or> (expo q = 1023 \<and> m = 9007199254740992))"
  proof
    assume "1024 \<le> expo q \<or> (expo q = 1023 \<and> m = 9007199254740992)"
    with \<open>expo q \<le> expo B\<close> fin have eq: "expo q = 1023" and m: "m = 9007199254740992" by auto
    from eq have "u = 2 powi 971" by (simp add: u e_def)
    with m have "of_int m * u = 2 powi 53 * 2 powi 971" by (simp add: two_powi_53)
    also have "\<dots> = 2 powi 1024" by (simp add: two_powi_add [symmetric])
    finally have "(2::rat) powi 1024 \<le> B" using rB by simp
    moreover have "B < 2 powi (expo B + 1)" using expo_bounds(2) [of B] Bpos by simp
    moreover have "(2::rat) powi (expo B + 1) \<le> 2 powi 1024"
      using fin by (intro power_int_increasing) simp_all
    ultimately show False by simp
  qed
  then have "rnd q = Fin (of_int m * u)"
    using q(1) by (simp add: rnd_pos m_def u_def)
  with r0 rB show ?thesis by blast
qed

lemma rnd_lower:
  assumes L: "0 < L" "L \<le> q" and grid: "L = of_int K * ulp L"
  shows "rnd q = PInf \<or> (\<exists>r. rnd q = Fin r \<and> L \<le> r)"
proof -
  from L have q: "0 < q" by simp
  from L have "expo L \<le> expo q" by (intro expo_mono) simp_all
  define e where "e = max (expo q) (- 1022)"
  define eL where "eL = max (expo L) (- 1022)"
  define u where "u = ulp q"
  define m where "m = round_half_even (q / u)"
  have le: "eL \<le> e" using \<open>expo L \<le> expo q\<close> by (simp add: e_def eL_def)
  have u: "u = 2 powi (e - 52)" by (simp add: u_def ulp_def e_def)
  have upos: "0 < u" by (simp add: u_def ulp_pos)
  have "L \<le> of_int m * u"
  proof (cases "e = eL")
    case True
    then have "ulp L = u" by (simp add: u ulp_def eL_def)
    with grid have Lu: "L = of_int K * u" by simp
    have "of_int K * u \<le> q" using L(2) by (simp only: Lu [symmetric])
    then have "of_int K \<le> q / u" using upos by (simp only: pos_le_divide_eq)
    then have "K \<le> m" unfolding m_def by (rule round_half_even_ge)
    then show ?thesis using upos by (simp only: Lu mult_le_cancel_right_pos of_int_le_iff)
  next
    case False
    with le have lt: "eL < e" by simp
    then have e: "e = expo q" by (simp add: e_def eL_def max_def split: if_splits)
    have "(2::rat) powi e \<le> q" using expo_bounds(1) [of q] q by (simp add: e)
    moreover have "(2::rat) powi e = 2 powi 52 * u" unfolding u by (rule two_powi_split)
    ultimately have "of_int 4503599627370496 \<le> q / u"
      using upos by (simp add: pos_le_divide_eq two_powi_52)
    then have "4503599627370496 \<le> m" unfolding m_def by (rule round_half_even_ge)
    then have "(4503599627370496::rat) \<le> of_int m" by linarith
    then have "2 powi 52 * u \<le> of_int m * u"
      using upos by (simp add: two_powi_52)
    then have "(2::rat) powi e \<le> of_int m * u"
      using \<open>(2::rat) powi e = 2 powi 52 * u\<close> by simp
    moreover have "L < 2 powi (expo L + 1)" using expo_bounds(2) [of L] L(1) by simp
    moreover have "(2::rat) powi (expo L + 1) \<le> 2 powi e"
      using lt by (intro power_int_increasing) (simp_all add: eL_def)
    ultimately show ?thesis by simp
  qed
  then show ?thesis using q by (auto simp add: rnd_pos m_def u_def)
qed

lemma rnd_upper_grid:
  assumes "0 \<le> q" and "q \<le> of_int K * 2 powi j"
    and "4503599627370496 \<le> K" and "K < 9007199254740992" and "- 1074 \<le> j" and "j \<le> 971"
  shows "\<exists>r. rnd q = Fin r \<and> 0 \<le> r \<and> r \<le> of_int K * 2 powi j"
proof (cases "q = 0")
  case True
  then show ?thesis using assms(1,2) by (simp add: rnd_def)
next
  case False
  with assms(1) have "0 < q" by simp
  moreover note assms(2)
  moreover have "of_int K * 2 powi j = of_int K * ulp (of_int K * 2 powi j)"
    using assms by (simp add: ulp_grid)
  moreover have "expo (of_int K * 2 powi j) \<le> 1023"
    using assms by (simp add: expo_grid)
  ultimately show ?thesis by (rule rnd_upper)
qed

lemma rnd_lower_grid:
  assumes "of_int K * 2 powi j \<le> q"
    and "4503599627370496 \<le> K" and "K < 9007199254740992" and "- 1074 \<le> j"
  shows "rnd q = PInf \<or> (\<exists>r. rnd q = Fin r \<and> of_int K * 2 powi j \<le> r)"
proof (rule rnd_lower)
  have "(0::rat) < of_int K" using assms(2) by simp
  then show "0 < of_int K * (2::rat) powi j" using two_powi_pos [of j] by simp
  show "of_int K * 2 powi j \<le> q" by (rule assms(1))
  show "of_int K * 2 powi j = of_int K * ulp (of_int K * 2 powi j)"
    using assms by (simp add: ulp_grid)
qed

lemma expo_minus: "expo (- q) = expo q"
  by (simp add: expo_def)

lemma ulp_minus: "ulp (- q) = ulp q"
  by (simp add: ulp_def expo_minus)

lemma rnd_minus: "rnd (- q) = js_neg (rnd q)"
proof (cases "q = 0")
  case True
  then show ?thesis by (simp add: rnd_def)
next
  case False
  then show ?thesis
    by (cases "0 < q") (auto simp add: rnd_def Let_def expo_minus ulp_minus sgn_if not_less)
qed

lemma rnd_of_int_pos:
  assumes "0 < k" and "k < 9007199254740992"
  shows "rnd (of_int k) = Fin (of_int k)"
proof -
  define q :: rat where "q = of_int k"
  have q: "0 < q" "1 \<le> q" "q < 9007199254740992" using assms by (simp_all add: q_def)
  have lo: "0 \<le> expo q"
  proof -
    have "(2::rat) powi 0 < 2 powi (expo q + 1)"
      using expo_bounds(2) [of q] q by simp
    then have "0 < expo q + 1" by (rule two_powi_less_cancel)
    then show ?thesis by simp
  qed
  have hi: "expo q \<le> 52"
  proof -
    have "(2::rat) powi (expo q) < 2 powi 53"
      using expo_bounds(1) [of q] q by (simp add: two_powi_53)
    then have "expo q < 53" by (rule two_powi_less_cancel)
    then show ?thesis by simp
  qed
  define j where "j = nat (52 - expo q)"
  have u: "ulp q = 2 powi (expo q - 52)" using lo by (simp add: ulp_def max_def)
  have "2 powi (expo q - 52) * (2::rat) powi (52 - expo q) = 1"
    using two_powi_add [of "expo q - 52" "52 - expo q"] by simp
  moreover have "(2::rat) powi (52 - expo q) = of_int (2 ^ j)"
    using hi by (simp add: j_def two_powi_nat)
  ultimately have inv: "ulp q * of_int (2 ^ j) = 1" by (simp add: u)
  then have "q / ulp q = q * of_int (2 ^ j)"
    using ulp_pos [of q] by (simp add: field_simps)
  also have "\<dots> = of_int (k * 2 ^ j)" by (simp add: q_def)
  finally have m: "round_half_even (q / ulp q) = k * 2 ^ j"
    by (simp only: round_half_even_of_int)
  have "of_int (k * 2 ^ j) * ulp q = q * (ulp q * of_int (2 ^ j))" by (simp add: q_def)
  then have again: "of_int (k * 2 ^ j) * ulp q = q" by (simp only: inv mult_1_right)
  have "rnd q = Fin (of_int (round_half_even (q / ulp q)) * ulp q)"
    using q(1) hi by (simp add: rnd_pos m)
  then have "rnd q = Fin q" by (simp only: m again)
  then show ?thesis by (simp add: q_def)
qed

lemma rnd_of_int:
  assumes "\<bar>k\<bar> < 9007199254740992"
  shows "rnd (of_int k) = Fin (of_int k)"
proof (cases "k = 0")
  case True
  then show ?thesis by (simp add: rnd_def)
next
  case False
  show ?thesis
  proof (cases "0 < k")
    case True
    then show ?thesis using assms by (intro rnd_of_int_pos) simp_all
  next
    case neg: False
    with False assms have "0 < - k" "- k < 9007199254740992" by simp_all
    then have "rnd (of_int (- k)) = Fin (of_int (- k))" by (rule rnd_of_int_pos)
    then have "js_neg (rnd (of_int k)) = Fin (- of_int k)" by (simp add: rnd_minus)
    then show ?thesis by (cases "rnd (of_int k)") simp_all
  qed
qed

lemma expo_ge_52:
  assumes "4503599627370496 \<le> a"
  shows "52 \<le> expo a"
proof -
  have "(2::rat) powi 52 < 2 powi (expo a + 1)"
    using expo_bounds(2) [of a] assms by (simp add: two_powi_52)
  then have "52 < expo a + 1" by (rule two_powi_less_cancel)
  then show ?thesis by simp
qed

lemma big_double_integer:
  assumes "is_double a" and "4503599627370496 \<le> a"
  obtains A where "a = of_int A"
proof -
  from assms(2) have pos: "0 < a" by simp
  from assms(1) have "rnd a = Fin a" by (simp add: is_double_def)
  with pos have a: "a = of_int (round_half_even (a / ulp a)) * ulp a"
    by (simp add: rnd_pos split: if_splits)
  have e: "52 \<le> expo a" using assms(2) by (rule expo_ge_52)
  then have "ulp a = 2 powi (expo a - 52)" by (simp add: ulp_def max_def)
  also have "\<dots> = of_int (2 ^ nat (expo a - 52))" using e by (simp add: two_powi_nat)
  finally have "a = of_int (round_half_even (a / ulp a) * 2 ^ nat (expo a - 52))"
    using a by simp
  then show ?thesis by (rule that)
qed

lemma integer_part_representable:
  assumes "is_double a" and "0 \<le> a"
  shows "rnd (of_int (\<lfloor>a * 1000 + 1 / 2\<rfloor> div 1000)) = Fin (of_int (\<lfloor>a * 1000 + 1 / 2\<rfloor> div 1000))"
proof (cases "4503599627370496 \<le> a")
  case True
  with assms(1) obtain A where A: "a = of_int A" by (rule big_double_integer)
  have "\<lfloor>a * 1000 + 1 / 2\<rfloor> = A * 1000"
    by (rule floor_unique) (simp_all add: A)
  then have "\<lfloor>a * 1000 + 1 / 2\<rfloor> div 1000 = A" by simp
  then show ?thesis using assms(1) by (simp add: A [symmetric] is_double_def)
next
  case False
  define n where "n = \<lfloor>a * 1000 + 1 / 2\<rfloor>"
  have "a * 1000 + 1 / 2 < 4503599627370497 * 1000" using False by simp
  then have "n < 4503599627370497 * 1000" unfolding n_def by (simp add: floor_less_iff)
  then have up: "n div 1000 < 4503599627370497" by simp
  have "0 \<le> a * 1000 + 1 / 2" using assms(2) by simp
  then have "0 \<le> n" unfolding n_def by simp
  then have "0 \<le> n div 1000" by simp
  with up have "\<bar>n div 1000\<bar> < 9007199254740992" by simp
  then show ?thesis unfolding n_def [symmetric] by (rule rnd_of_int)
qed

section \<open>The calculator\<close>

lemma lit_10_33_value: "lit_10_33 = Fin (5815273018842153 / 562949953421312)"
  unfolding lit_10_33_def by code_simp

lemma years_difference:
  assumes "i < r"
  shows "js_sub (Fin (of_int r)) (Fin (of_int i)) = PInf \<or>
         (\<exists>d. js_sub (Fin (of_int r)) (Fin (of_int i)) = Fin d \<and> 1 \<le> d)"
proof -
  have "of_int 4503599627370496 * 2 powi (- 52) = (1::rat)"
    using two_powi_add [of 52 "- 52"] by (simp add: two_powi_52)
  moreover have "(1::rat) \<le> of_int r - of_int i" using assms by linarith
  ultimately have "of_int 4503599627370496 * 2 powi (- 52) \<le> (of_int r - of_int i :: rat)" by simp
  from rnd_lower_grid [OF this] \<open>of_int 4503599627370496 * 2 powi (- 52) = (1::rat)\<close>
  show ?thesis by simp
qed

lemma months_bound:
  assumes "1 \<le> d"
  shows "js_mul (Fin d) (Fin 12) = PInf \<or> (\<exists>m. js_mul (Fin d) (Fin 12) = Fin m \<and> 12 \<le> m)"
proof -
  have twelve: "of_int 6755399441055744 * 2 powi (- 49) = (12::rat)"
    using two_powi_add [of 49 "- 49"] by (simp add: two_powi_nat)
  have "(12::rat) \<le> d * 12" using assms by simp
  then have "of_int 6755399441055744 * 2 powi (- 49) \<le> d * 12" by (simp only: twelve)
  from rnd_lower_grid [OF this] twelve show ?thesis by simp
qed

lemma onSubmit_passes_guard:
  assumes "issueYear d = Fin (of_int i)" and "renewalYear d = Fin (of_int r)" and "i < r"
  shows "\<not> js_le (js_sub (renewalYear d) (issueYear d)) (Fin 0)"
  using years_difference [OF assms(3)] assms(1,2) by auto

lemma onSubmit_spec_calculate:
  assumes "issueYear d = Fin (of_int i)" and "renewalYear d = Fin (of_int r)" and "i < r"
  shows "onSubmit d st = st\<lparr>result := Some (spec_calculate d)\<rparr>"
  using onSubmit_passes_guard [OF assms]
  by (simp add: onSubmit_def spec_calculate_def Let_def)

text \<open>
  Claim C1. For every validated input (a positive contract value, integer years with the
  renewal year after the issue year) \<^verbatim>\<open>onSubmit\<close> stores exactly the value of the
  specification's four steps \<open>months = (renewalYear - issueYear) * 12\<close>,
  \<open>v1 = contractValue / months\<close>, \<open>v2 = v1 * 10.33\<close>, \<open>result = (v2 / 100) + v1\<close>,
  each operation rounded as binary64 in this order and grouping, and touches nothing else.
\<close>

theorem C1_onSubmit_formula:
  assumes "contractValue d = Fin c" and "0 < c"
    and "issueYear d = Fin (of_int i)" and "renewalYear d = Fin (of_int r)" and "i < r"
  shows "onSubmit d st = st\<lparr>result := Some (spec_calculate d)\<rparr>"
  using assms(3-5) by (rule onSubmit_spec_calculate)

theorem C1_onSubmit_formula_witness:
  "contractValue \<lparr>contractValue = Fin 50000, issueYear = Fin 2020, renewalYear = Fin 2023\<rparr>
     = Fin 50000 \<and> (0::rat) < 50000 \<and> (2020::int) < 2023 \<and>
   onSubmit \<lparr>contractValue = Fin 50000, issueYear = Fin 2020, renewalYear = Fin 2023\<rparr>
       \<lparr>result = None, errors = Map.empty\<rparr>
     = \<lparr>result = Some (spec_calculate
           \<lparr>contractValue = Fin 50000, issueYear = Fin 2020, renewalYear = Fin 2023\<rparr>),
        errors = Map.empty\<rparr>"
  using C1_onSubmit_formula
    [of "\<lparr>contractValue = Fin 50000, issueYear = Fin 2020, renewalYear = Fin 2023\<rparr>"
      50000 2020 2023 "\<lparr>result = None, errors = Map.empty\<rparr>"]
  by simp

text \<open>
  Claim C5. For every input triple with \<^verbatim>\<open>renewalYear - issueYear <= 0\<close> the calculator
  produces no numeric result: the stored result is left as it was, and the call fails with
  the invalid-duration error, which the component records as the manual error
  \<^verbatim>\<open>Renewal year must be greater than issue year.\<close> on the renewal year.
\<close>

theorem C5_onSubmit_invalid_duration:
  assumes "js_le (js_sub (renewalYear d) (issueYear d)) (Fin 0)"
  shows "onSubmit d st = st\<lparr>errors := (errors st)(RenewalYear \<mapsto>
             \<lparr>error_type = ''manual'',
              error_message = ''Renewal year must be greater than issue year.''\<rparr>)\<rparr>
         \<and> result (onSubmit d st) = result st"
  using assms by (simp add: onSubmit_def Let_def)

lemma rnd_minus_one: "rnd (- 1) = Fin (- 1)"
  by code_simp

theorem C5_onSubmit_invalid_duration_witness:
  "js_le (js_sub (Fin 2021) (Fin 2022)) (Fin 0) \<and>
   onSubmit \<lparr>contractValue = Fin 12000, issueYear = Fin 2022, renewalYear = Fin 2021\<rparr>
       \<lparr>result = Some (Fin 7), errors = Map.empty\<rparr>
     = \<lparr>result = Some (Fin 7), errors = [RenewalYear \<mapsto>
             \<lparr>error_type = ''manual'',
              error_message = ''Renewal year must be greater than issue year.''\<rparr>]\<rparr>"
  using C5_onSubmit_invalid_duration
    [of "\<lparr>contractValue = Fin 12000, issueYear = Fin 2022, renewalYear = Fin 2021\<rparr>"
      "\<lparr>result = Some (Fin 7), errors = Map.empty\<rparr>"]
  by (simp add: rnd_minus_one)

lemma is_double_less:
  assumes "is_double c" and "0 < c"
  shows "c < 2 powi 1024"
proof -
  from assms have "rnd c = Fin c" by (simp add: is_double_def)
  with assms(2) have "\<not> 1024 \<le> expo c" by (auto simp add: rnd_pos split: if_splits)
  then have "expo c + 1 \<le> 1024" by simp
  then have "(2::rat) powi (expo c + 1) \<le> 2 powi 1024"
    by (intro power_int_increasing) simp_all
  with expo_bounds(2) [of c] assms(2) show ?thesis by simp
qed

lemma value1_bound:
  assumes c: "0 < c" "c < 2 powi 1024" and m: "months = PInf \<or> (\<exists>m. months = Fin m \<and> 12 \<le> m)"
  shows "\<exists>v. js_div (Fin c) months = Fin v \<and> 0 \<le> v \<and> v \<le> of_int 6004799503160662 * 2 powi 968"
proof -
  have P: "(0::rat) < 2 powi 968" by (rule two_powi_pos)
  from m show ?thesis
  proof
    assume "months = PInf"
    then show ?thesis using P by simp
  next
    assume "\<exists>m. months = Fin m \<and> 12 \<le> m"
    then obtain m where mm: "months = Fin m" "12 \<le> m" by blast
    have big: "(2::rat) powi 1024 = 72057594037927936 * 2 powi 968"
      using two_powi_add [of 56 968] by (simp add: two_powi_nat)
    have "c / m \<le> c / 12" using c(1) mm(2) by (intro divide_left_mono) simp_all
    also have "\<dots> \<le> (72057594037927936 * 2 powi 968) / 12" using c(2) by (simp add: big)
    also have "\<dots> \<le> of_int 6004799503160662 * 2 powi 968" using P by simp
    finally have up: "c / m \<le> of_int 6004799503160662 * 2 powi 968" .
    have "0 \<le> c / m" using c(1) mm(2) by simp
    from rnd_upper_grid [OF this up] mm show ?thesis by simp
  qed
qed

lemma value2_bound:
  assumes "0 \<le> v" and "v \<le> of_int 6004799503160662 * 2 powi 968"
  shows "\<exists>w. js_mul (Fin v) lit_10_33 = Fin w \<and> 0 \<le> w \<and> w \<le> of_int 7753697358456205 * 2 powi 971"
proof -
  define k :: rat where "k = 5815273018842153 / 562949953421312"
  have P: "(0::rat) < 2 powi 968" by (rule two_powi_pos)
  have k: "0 \<le> k" by (simp add: k_def)
  have big: "(2::rat) powi 971 = 8 * 2 powi 968"
    using two_powi_add [of 3 968] by (simp add: two_powi_nat)
  have "v * k \<le> (of_int 6004799503160662 * 2 powi 968) * k"
    using assms(2) k by (rule mult_right_mono)
  also have "\<dots> = (6004799503160662 * k) * 2 powi 968" by simp
  also have "\<dots> \<le> (8 * 7753697358456205) * 2 powi 968"
    using P by (intro mult_right_mono) (simp_all add: k_def)
  also have "\<dots> = of_int 7753697358456205 * 2 powi 971" by (simp add: big)
  finally have up: "v * k \<le> of_int 7753697358456205 * 2 powi 971" .
  have "0 \<le> v * k" using assms(1) k by simp
  from rnd_upper_grid [OF this up] show ?thesis
    by (simp add: lit_10_33_value k_def)
qed

lemma percent_bound:
  assumes "0 \<le> w" and "w \<le> of_int 7753697358456205 * 2 powi 971"
  shows "\<exists>t. js_div (Fin w) (Fin 100) = Fin t \<and> 0 \<le> t \<and> t \<le> of_int 4503599627370496 * 2 powi 968"
proof -
  have P: "(0::rat) < 2 powi 968" by (rule two_powi_pos)
  have big: "(2::rat) powi 971 = 8 * 2 powi 968"
    using two_powi_add [of 3 968] by (simp add: two_powi_nat)
  have "w / 100 \<le> (of_int 7753697358456205 * 2 powi 971) / 100"
    using assms(2) by (simp add: divide_right_mono)
  also have "\<dots> \<le> of_int 4503599627370496 * 2 powi 968" using P by (simp add: big)
  finally have up: "w / 100 \<le> of_int 4503599627370496 * 2 powi 968" .
  have "0 \<le> w / 100" using assms(1) by simp
  from rnd_upper_grid [OF this up] show ?thesis by simp
qed

lemma final_bound:
  assumes "0 \<le> t" and "t \<le> of_int 4503599627370496 * 2 powi 968"
    and "0 \<le> v" and "v \<le> of_int 6004799503160662 * 2 powi 968"
  shows "\<exists>f. js_add (Fin t) (Fin v) = Fin f \<and> 0 \<le> f"
proof -
  have P: "(0::rat) < 2 powi 968" by (rule two_powi_pos)
  have big: "(2::rat) powi 969 = 2 * 2 powi 968"
    using two_powi_add [of 1 968] by (simp add: two_powi_nat)
  have "t + v \<le> of_int 4503599627370496 * 2 powi 968 + of_int 6004799503160662 * 2 powi 968"
    using assms(2,4) by (rule add_mono)
  also have "\<dots> \<le> of_int 5254199565265579 * 2 powi 969" using P by (simp add: big)
  finally have up: "t + v \<le> of_int 5254199565265579 * 2 powi 969" .
  have "0 \<le> t + v" using assms(1,3) by simp
  from rnd_upper_grid [OF this up] show ?thesis by auto
qed

text \<open>
  Claim C9. For every validated input with a finite positive contract value and integer
  years, the renewal year after the issue year, the result \<^verbatim>\<open>onSubmit\<close> stores is a
  finite, non-negative number. (The number of months may overflow to infinity for a huge
  renewal year; the stored result is then 0.)
\<close>

theorem C9_result_finite_nonneg:
  assumes cv: "contractValue d = Fin c" "0 < c" "is_double c"
    and yrs: "issueYear d = Fin (of_int i)" "renewalYear d = Fin (of_int r)" "i < r"
  shows "\<exists>f. result (onSubmit d st) = Some (Fin f) \<and> 0 \<le> f"
proof -
  have res: "result (onSubmit d st) = Some (spec_calculate d)"
    by (simp add: onSubmit_spec_calculate [OF yrs])
  have "js_mul (js_sub (renewalYear d) (issueYear d)) (Fin 12) = PInf \<or>
        (\<exists>m. js_mul (js_sub (renewalYear d) (issueYear d)) (Fin 12) = Fin m \<and> 12 \<le> m)"
    using years_difference [OF yrs(3)]
  proof
    assume "js_sub (Fin (of_int r)) (Fin (of_int i)) = PInf"
    then show ?thesis by (simp add: yrs)
  next
    assume "\<exists>y. js_sub (Fin (of_int r)) (Fin (of_int i)) = Fin y \<and> 1 \<le> y"
    then obtain y where y: "js_sub (Fin (of_int r)) (Fin (of_int i)) = Fin y" "1 \<le> y" by blast
    from months_bound [OF y(2)] show ?thesis by (simp only: yrs y(1))
  qed
  from value1_bound [OF cv(2) is_double_less [OF cv(3,2)] this]
  obtain v where v: "js_div (Fin c) (js_mul (js_sub (renewalYear d) (issueYear d)) (Fin 12)) = Fin v"
    "0 \<le> v" "v \<le> of_int 6004799503160662 * 2 powi 968" by blast
  from value2_bound [OF v(2,3)]
  obtain w where w: "js_mul (Fin v) lit_10_33 = Fin w" "0 \<le> w"
    "w \<le> of_int 7753697358456205 * 2 powi 971" by blast
  from percent_bound [OF w(2,3)]
  obtain t where t: "js_div (Fin w) (Fin 100) = Fin t" "0 \<le> t"
    "t \<le> of_int 4503599627370496 * 2 powi 968" by blast
  from final_bound [OF t(2,3) v(2,3)]
  obtain f where f: "js_add (Fin t) (Fin v) = Fin f" "0 \<le> f" by blast
  have "spec_calculate d = Fin f"
    by (simp only: spec_calculate_def Let_def cv(1) v(1) w(1) t(1) f(1))
  with res f(2) show ?thesis by simp
qed

lemma is_double_12000: "is_double 12000"
  by code_simp

theorem C9_result_finite_nonneg_witness:
  "contractValue \<lparr>contractValue = Fin 12000, issueYear = Fin 2021, renewalYear = Fin 2022\<rparr>
     = Fin 12000 \<and> (0::rat) < 12000 \<and> is_double 12000 \<and> (2021::int) < 2022 \<and>
   (\<exists>f. result (onSubmit
        \<lparr>contractValue = Fin 12000, issueYear = Fin 2021, renewalYear = Fin 2022\<rparr>
        \<lparr>result = None, errors = Map.empty\<rparr>) = Some (Fin f) \<and> 0 \<le> f)"
  using C9_result_finite_nonneg
    [of "\<lparr>contractValue = Fin 12000, issueYear = Fin 2021, renewalYear = Fin 2022\<rparr>"
      12000 2021 2022 "\<lparr>result = None, errors = Map.empty\<rparr>"]
    is_double_12000
  by simp

section \<open>The schema\<close>

lemma js_le_not_NaN: "js_le a b \<Longrightarrow> a \<noteq> NaN \<and> b \<noteq> NaN"
  by (cases a; cases b) simp_all

lemma js_le_not_gt: "js_le a b \<Longrightarrow> \<not> js_gt a b"
  by (cases a; cases b) (simp_all add: js_gt_def)

lemma object_status_Aborted:
  "object_status cy raw = Aborted \<longleftrightarrow>
     contractValue raw = NaN \<or> issueYear raw = NaN \<or> renewalYear raw = NaN"
  by (simp add: object_status_def Let_def contractValue_schema_def issueYear_schema_def
      renewalYear_schema_def coerce_number_def)

lemma contractValue_issues:
  "snd (contractValue_schema x) =
     (if x = NaN
      then [\<lparr>issue_code = invalid_type, issue_path = ContractValue, issue_message = None\<rparr>]
      else if js_le x (Fin 0)
      then [\<lparr>issue_code = too_small, issue_path = ContractValue,
             issue_message = Some ''Contract value must be a positive number.''\<rparr>]
      else [])"
  by (simp add: contractValue_schema_def coerce_number_def)

lemma issueYear_issues:
  "x \<noteq> NaN \<Longrightarrow> snd (issueYear_schema cy x) =
     (if js_isInteger x then []
      else [\<lparr>issue_code = invalid_type, issue_path = IssueYear, issue_message = None\<rparr>])
     @ (if js_lt x (Fin 1900)
        then [\<lparr>issue_code = too_small, issue_path = IssueYear,
               issue_message = Some ''Year must be 1900 or later.''\<rparr>] else [])
     @ (if js_gt x cy
        then [\<lparr>issue_code = too_big, issue_path = IssueYear,
               issue_message = Some ''Year cannot be in the future.''\<rparr>] else [])"
  by (simp add: issueYear_schema_def coerce_number_def)

lemma renewalYear_issues:
  "x \<noteq> NaN \<Longrightarrow> snd (renewalYear_schema x) =
     (if js_isInteger x then []
      else [\<lparr>issue_code = invalid_type, issue_path = RenewalYear, issue_message = None\<rparr>])
     @ (if js_lt x (Fin 1900)
        then [\<lparr>issue_code = too_small, issue_path = RenewalYear,
               issue_message = Some ''Year must be 1900 or later.''\<rparr>] else [])"
  by (simp add: renewalYear_schema_def coerce_number_def)

text \<open>
  Claim C6, as the code has it. For every input with \<^verbatim>\<open>renewalYear <= issueYear\<close> validation
  fails, and every violated constraint of every field is reported in the one pass, in the
  order of the fields and of their checks: the reported list is exactly the one written out
  below. The error on the renewal year that says it is not after the issue year is in the
  list exactly when the contract value coerces to a number: the refinement that carries it
  is skipped when a field fails coercion.
\<close>

theorem C6_renewal_not_after_issue:
  assumes "js_le (renewalYear raw) (issueYear raw)"
  shows "\<exists>found.
      safeParse cy raw = Failure found
    \<and> found =
        (if contractValue raw = NaN
         then [\<lparr>issue_code = invalid_type, issue_path = ContractValue, issue_message = None\<rparr>]
         else if js_le (contractValue raw) (Fin 0)
         then [\<lparr>issue_code = too_small, issue_path = ContractValue,
                issue_message = Some ''Contract value must be a positive number.''\<rparr>]
         else [])
        @ (if js_isInteger (issueYear raw) then []
           else [\<lparr>issue_code = invalid_type, issue_path = IssueYear, issue_message = None\<rparr>])
        @ (if js_lt (issueYear raw) (Fin 1900)
           then [\<lparr>issue_code = too_small, issue_path = IssueYear,
                  issue_message = Some ''Year must be 1900 or later.''\<rparr>] else [])
        @ (if js_gt (issueYear raw) cy
           then [\<lparr>issue_code = too_big, issue_path = IssueYear,
                  issue_message = Some ''Year cannot be in the future.''\<rparr>] else [])
        @ (if js_isInteger (renewalYear raw) then []
           else [\<lparr>issue_code = invalid_type, issue_path = RenewalYear, issue_message = None\<rparr>])
        @ (if js_lt (renewalYear raw) (Fin 1900)
           then [\<lparr>issue_code = too_small, issue_path = RenewalYear,
                  issue_message = Some ''Year must be 1900 or later.''\<rparr>] else [])
        @ (if contractValue raw = NaN then []
           else [\<lparr>issue_code = custom, issue_path = RenewalYear,
                  issue_message = Some ''Renewal year must be after the issue year.''\<rparr>])
    \<and> (\<lparr>issue_code = custom, issue_path = RenewalYear,
          issue_message = Some ''Renewal year must be after the issue year.''\<rparr> \<in> set found
         \<longleftrightarrow> contractValue raw \<noteq> NaN)"
proof -
  from assms have yrs: "renewalYear raw \<noteq> NaN" "issueYear raw \<noteq> NaN"
    using js_le_not_NaN by blast+
  from assms have ngt: "\<not> js_gt (renewalYear raw) (issueYear raw)" by (rule js_le_not_gt)
  have fld: "field_issues cy raw =
      snd (contractValue_schema (contractValue raw))
      @ snd (issueYear_schema cy (issueYear raw)) @ snd (renewalYear_schema (renewalYear raw))"
    by (simp add: field_issues_def)
  show ?thesis
  proof (cases "contractValue raw = NaN")
    case True
    then have "object_status cy raw = Aborted" by (simp add: object_status_Aborted)
    then have "safeParse cy raw = Failure (field_issues cy raw)"
      by (simp add: safeParse_def formSchema_def)
    then show ?thesis using True yrs
      by (simp add: fld contractValue_issues issueYear_issues renewalYear_issues)
  next
    case False
    then have "object_status cy raw \<noteq> Aborted" using yrs by (simp add: object_status_Aborted)
    then have "safeParse cy raw = Failure (field_issues cy raw @ [renewal_issue])"
      using ngt by (simp add: safeParse_def formSchema_def)
    then show ?thesis using False yrs
      by (simp add: fld contractValue_issues issueYear_issues renewalYear_issues
          renewal_issue_def)
  qed
qed

lemma not_integer_4061_halves: "\<not> js_isInteger (Fin (4061 / 2))"
  by code_simp

lemma integer_1800: "js_isInteger (Fin 1800)"
  by simp

theorem C6_renewal_not_after_issue_witness:
  "js_le (Fin 1800) (Fin (4061 / 2)) \<and>
   (\<exists>found.
      safeParse (Fin 2024)
        \<lparr>contractValue = Fin (- 5), issueYear = Fin (4061 / 2), renewalYear = Fin 1800\<rparr>
        = Failure found
    \<and> found =
        [\<lparr>issue_code = too_small, issue_path = ContractValue,
          issue_message = Some ''Contract value must be a positive number.''\<rparr>,
         \<lparr>issue_code = invalid_type, issue_path = IssueYear, issue_message = None\<rparr>,
         \<lparr>issue_code = too_big, issue_path = IssueYear,
          issue_message = Some ''Year cannot be in the future.''\<rparr>,
         \<lparr>issue_code = too_small, issue_path = RenewalYear,
          issue_message = Some ''Year must be 1900 or later.''\<rparr>,
         \<lparr>issue_code = custom, issue_path = RenewalYear,
          issue_message = Some ''Renewal year must be after the issue year.''\<rparr>])"
  using C6_renewal_not_after_issue
    [of "\<lparr>contractValue = Fin (- 5), issueYear = Fin (4061 / 2), renewalYear = Fin 1800\<rparr>"
      "Fin 2024"]
  by (auto simp add: js_gt_def not_integer_4061_halves integer_1800 simp del: js_isInteger.simps)

theorem C6_counterexample:
  "js_le (Fin 2021) (Fin 2022) \<and>
   safeParse (Fin 2024) \<lparr>contractValue = NaN, issueYear = Fin 2022, renewalYear = Fin 2021\<rparr>
     = Failure [\<lparr>issue_code = invalid_type, issue_path = ContractValue, issue_message = None\<rparr>]
   \<and> renewal_issue \<notin> set [\<lparr>issue_code = invalid_type, issue_path = ContractValue,
                             issue_message = None\<rparr>]"
  by (simp add: safeParse_def formSchema_def object_status_def field_issues_def
      contractValue_schema_def issueYear_schema_def renewalYear_schema_def coerce_number_def
      js_gt_def renewal_issue_def)

text \<open>
  Claim C7, as the code has it. The upper bound used to validate the issue year is the
  calendar year the clock showed when the module was loaded; it stays fixed for every
  later validation call, whatever year the clock shows at the call.
\<close>

theorem C7_current_year_fixed_at_load:
  "validate (load_module year_at_load) year_at_call raw
     = safeParse (Fin (of_int year_at_load)) raw"
  by (simp add: validate_def load_module_def)

theorem C7_counterexample:
  "validate (load_module 2024) 2025
       \<lparr>contractValue = Fin 12000, issueYear = Fin 2025, renewalYear = Fin 2026\<rparr>
     = Failure [\<lparr>issue_code = too_big, issue_path = IssueYear,
                 issue_message = Some ''Year cannot be in the future.''\<rparr>]
   \<and> safeParse (Fin 2025)
       \<lparr>contractValue = Fin 12000, issueYear = Fin 2025, renewalYear = Fin 2026\<rparr>
     = Success \<lparr>contractValue = Fin 12000, issueYear = Fin 2025, renewalYear = Fin 2026\<rparr>"
  by (simp add: validate_def load_module_def safeParse_def formSchema_def object_status_def
      field_issues_def contractValue_schema_def issueYear_schema_def renewalYear_schema_def
      coerce_number_def js_gt_def)

lemma safeParse_years:
  assumes "0 < c"
  shows "safeParse (Fin (of_int cy))
           \<lparr>contractValue = Fin c, issueYear = Fin (of_int i), renewalYear = Fin (of_int r)\<rparr>
         = (let found =
                  (if i < 1900 then [\<lparr>issue_code = too_small, issue_path = IssueYear,
                        issue_message = Some ''Year must be 1900 or later.''\<rparr>] else [])
                  @ (if cy < i then [\<lparr>issue_code = too_big, issue_path = IssueYear,
                        issue_message = Some ''Year cannot be in the future.''\<rparr>] else [])
                  @ (if r < 1900 then [\<lparr>issue_code = too_small, issue_path = RenewalYear,
                        issue_message = Some ''Year must be 1900 or later.''\<rparr>] else [])
                  @ (if i < r then [] else [renewal_issue])
            in if found = [] then Success \<lparr>contractValue = Fin c, issueYear = Fin (of_int i),
                                           renewalYear = Fin (of_int r)\<rparr>
               else Failure found)"
proof -
  have i: "(of_int i :: rat) < 1900 \<longleftrightarrow> i < 1900" and r: "(of_int r :: rat) < 1900 \<longleftrightarrow> r < 1900"
    by linarith+
  show ?thesis using assms
    by (simp add: safeParse_def formSchema_def object_status_def field_issues_def
        contractValue_schema_def issueYear_schema_def renewalYear_schema_def
        coerce_number_def js_gt_def Let_def i r)
qed

text \<open>
  Claim C8. With the other fields valid, validation accepts the issue years 1900 and
  \<^verbatim>\<open>currentYear\<close>, and rejects 1899 and \<^verbatim>\<open>currentYear + 1\<close> with the out-of-range error on the
  issue year and nothing else. (The range from 1900 to \<^verbatim>\<open>currentYear\<close> is taken to be
  non-empty.)
\<close>

theorem C8_issue_year_boundaries:
  assumes "1900 \<le> cy" and "0 < c"
    and "1900 < r1" and "cy < r2" and "1900 \<le> r3" and "cy + 1 < r4"
  shows "safeParse (Fin (of_int cy))
           \<lparr>contractValue = Fin c, issueYear = Fin (of_int 1900), renewalYear = Fin (of_int r1)\<rparr>
         = Success \<lparr>contractValue = Fin c, issueYear = Fin (of_int 1900),
                    renewalYear = Fin (of_int r1)\<rparr>
       \<and> safeParse (Fin (of_int cy))
           \<lparr>contractValue = Fin c, issueYear = Fin (of_int cy), renewalYear = Fin (of_int r2)\<rparr>
         = Success \<lparr>contractValue = Fin c, issueYear = Fin (of_int cy),
                    renewalYear = Fin (of_int r2)\<rparr>
       \<and> safeParse (Fin (of_int cy))
           \<lparr>contractValue = Fin c, issueYear = Fin (of_int 1899), renewalYear = Fin (of_int r3)\<rparr>
         = Failure [\<lparr>issue_code = too_small, issue_path = IssueYear,
                     issue_message = Some ''Year must be 1900 or later.''\<rparr>]
       \<and> safeParse (Fin (of_int cy))
           \<lparr>contractValue = Fin c, issueYear = Fin (of_int (cy + 1)),
            renewalYear = Fin (of_int r4)\<rparr>
         = Failure [\<lparr>issue_code = too_big, issue_path = IssueYear,
                     issue_message = Some ''Year cannot be in the future.''\<rparr>]"
  using assms by (simp add: safeParse_years Let_def del: of_int_numeral of_int_add)

theorem C8_issue_year_boundaries_witness:
  "(1900::int) \<le> 2024 \<and> (0::rat) < 12000 \<and> (1900::int) < 1901 \<and> (2024::int) < 2025 \<and>
   (1900::int) \<le> 1900 \<and> (2024::int) + 1 < 2026 \<and>
   safeParse (Fin 2024) \<lparr>contractValue = Fin 12000, issueYear = Fin 1900, renewalYear = Fin 1901\<rparr>
     = Success \<lparr>contractValue = Fin 12000, issueYear = Fin 1900, renewalYear = Fin 1901\<rparr> \<and>
   safeParse (Fin 2024) \<lparr>contractValue = Fin 12000, issueYear = Fin 2024, renewalYear = Fin 2025\<rparr>
     = Success \<lparr>contractValue = Fin 12000, issueYear = Fin 2024, renewalYear = Fin 2025\<rparr> \<and>
   safeParse (Fin 2024) \<lparr>contractValue = Fin 12000, issueYear = Fin 1899, renewalYear = Fin 1900\<rparr>
     = Failure [\<lparr>issue_code = too_small, issue_path = IssueYear,
                 issue_message = Some ''Year must be 1900 or later.''\<rparr>] \<and>
   safeParse (Fin 2024) \<lparr>contractValue = Fin 12000, issueYear = Fin 2025, renewalYear = Fin 2026\<rparr>
     = Failure [\<lparr>issue_code = too_big, issue_path = IssueYear,
                 issue_message = Some ''Year cannot be in the future.''\<rparr>]"
  using C8_issue_year_boundaries [of 2024 12000 1901 2025 1900 2026]
  by simp

section \<open>Digit strings and the platform conversions\<close>

subsection \<open>Digits\<close>

lemma digit_char_cases:
  assumes "0 \<le> d" and "d < 10"
  shows "d = 0 \<or> d = 1 \<or> d = 2 \<or> d = 3 \<or> d = 4 \<or> d = 5 \<or> d = 6 \<or> d = 7 \<or> d = 8 \<or> d = (9::int)"
  using assms by presburger

lemma digit_char_simps:
  "digit_char 0 = CHR ''0''" "digit_char 1 = CHR ''1''" "digit_char 2 = CHR ''2''"
  "digit_char 3 = CHR ''3''" "digit_char 4 = CHR ''4''" "digit_char 5 = CHR ''5''"
  "digit_char 6 = CHR ''6''" "digit_char 7 = CHR ''7''" "digit_char 8 = CHR ''8''"
  "digit_char 9 = CHR ''9''"
  by (simp_all add: digit_char_def eval_nat_numeral)

lemma is_digit_digit_char:
  assumes "0 \<le> d" and "d < 10"
  shows "is_digit (digit_char d)"
  using digit_char_cases [OF assms]
  by (elim disjE) (simp_all only: digit_char_simps, simp_all add: is_digit_def)

lemma digit_value_simps:
  "digit_value CHR ''0'' = 0" "digit_value CHR ''1'' = 1" "digit_value CHR ''2'' = 2"
  "digit_value CHR ''3'' = 3" "digit_value CHR ''4'' = 4" "digit_value CHR ''5'' = 5"
  "digit_value CHR ''6'' = 6" "digit_value CHR ''7'' = 7" "digit_value CHR ''8'' = 8"
  "digit_value CHR ''9'' = 9"
  by (simp_all add: digit_value_def)

lemma digit_value_digit_char:
  assumes "0 \<le> d" and "d < 10"
  shows "digit_value (digit_char d) = d"
  using digit_char_cases [OF assms]
  by (elim disjE) (simp_all only: digit_char_simps digit_value_simps)

lemma is_digit_not_special:
  assumes "is_digit c"
  shows "c \<noteq> CHR ''.''" and "c \<noteq> CHR ''-''" and "c \<noteq> CHR ''+''" and "c \<noteq> CHR ''I''"
    and "c \<noteq> CHR '' ''"
  using assms by (auto simp add: is_digit_def)

lemma dec_small: "n < 10 \<Longrightarrow> dec n = [digit_char n]"
  by (subst dec.simps) simp

lemma dec_step: "10 \<le> n \<Longrightarrow> dec n = dec (n div 10) @ [digit_char (n mod 10)]"
  by (subst dec.simps) simp

lemma dec_digits: "0 \<le> n \<Longrightarrow> list_all is_digit (dec n)"
proof (induction n rule: dec.induct)
  case (1 n)
  show ?case
  proof (cases "n < 10")
    case True
    then show ?thesis using "1.prems" by (simp add: dec_small is_digit_digit_char)
  next
    case False
    then have "list_all is_digit (dec (n div 10))" using "1.IH" "1.prems" by simp
    moreover have "is_digit (digit_char (n mod 10))" by (rule is_digit_digit_char) simp_all
    ultimately show ?thesis using False by (simp add: dec_step)
  qed
qed

lemma dec_not_Nil: "dec n \<noteq> []"
  by (subst dec.simps) simp

lemma digits_value_snoc: "digits_value (ds @ [c]) = 10 * digits_value ds + digit_value c"
  by (simp add: digits_value_def)

lemma digits_value_dec: "0 \<le> n \<Longrightarrow> digits_value (dec n) = n"
proof (induction n rule: dec.induct)
  case (1 n)
  show ?case
  proof (cases "n < 10")
    case True
    then show ?thesis using "1.prems"
      by (simp add: dec_small digits_value_def digit_value_digit_char)
  next
    case False
    then have "digits_value (dec (n div 10)) = n div 10" using "1.IH" "1.prems" by simp
    moreover have "digit_value (digit_char (n mod 10)) = n mod 10"
      by (rule digit_value_digit_char) simp_all
    ultimately show ?thesis using False by (simp add: dec_step digits_value_snoc)
  qed
qed



text \<open>The last three digits of a number of at least four digits.\<close>

lemma dec_thousands:
  assumes "1000 \<le> n"
  shows "dec n = dec (n div 1000)
           @ [digit_char (n div 100 mod 10), digit_char (n div 10 mod 10), digit_char (n mod 10)]"
proof -
  have a: "10 \<le> n" and b: "10 \<le> n div 10" and c: "10 \<le> n div 100" using assms by simp_all
  have d2: "n div 10 div 10 = n div 100" and d3: "n div 100 div 10 = n div 1000"
    by (simp_all add: zdiv_zmult2_eq)
  have "dec n = dec (n div 10) @ [digit_char (n mod 10)]" using a by (rule dec_step)
  also have "dec (n div 10) = dec (n div 100) @ [digit_char (n div 10 mod 10)]"
    using dec_step [OF b] by (simp only: d2)
  also have "dec (n div 100) = dec (n div 1000) @ [digit_char (n div 100 mod 10)]"
    using dec_step [OF c] by (simp only: d3)
  finally show ?thesis by simp
qed

lemma fixed_digits:
  assumes "0 \<le> n"
  shows "(let m = dec n;
              m' = (if length m \<le> 3 then replicate (3 + 1 - length m) CHR ''0'' @ m else m);
              k = length m'
          in take (k - 3) m' @ ''.'' @ drop (k - 3) m')
         = dec (n div 1000) @ ''.'' @ last3 n"
proof -
  consider "n < 10" | "10 \<le> n" "n < 100" | "100 \<le> n" "n < 1000" | "1000 \<le> n" by linarith
  then show ?thesis
  proof cases
    case 1
    then have "n div 1000 = 0" "n div 100 = 0" "n div 10 = 0" "n mod 10 = n"
      using assms by simp_all
    then show ?thesis using 1 by (simp add: dec_small last3_def digit_char_simps eval_nat_numeral)
  next
    case 2
    then have z: "n div 1000 = 0" "n div 100 = 0" "n div 10 < 10" "n div 10 mod 10 = n div 10"
      by simp_all
    have "dec n = [digit_char (n div 10), digit_char (n mod 10)]"
      using 2 z by (simp add: dec_step dec_small)
    then show ?thesis using z by (simp add: dec_small last3_def digit_char_simps eval_nat_numeral)
  next
    case 3
    then have z: "n div 1000 = 0" "n div 100 < 10" "n div 100 mod 10 = n div 100"
      "10 \<le> n div 10" by simp_all
    have d2: "n div 10 div 10 = n div 100" by (simp add: zdiv_zmult2_eq)
    have "dec n = [digit_char (n div 100), digit_char (n div 10 mod 10), digit_char (n mod 10)]"
      using 3 z d2 by (simp add: dec_step dec_small)
    then show ?thesis using z by (simp add: dec_small last3_def digit_char_simps eval_nat_numeral)
  next
    case 4
    have "length (dec (n div 1000)) \<noteq> 0" using dec_not_Nil by simp
    then show ?thesis by (simp add: dec_thousands [OF 4] last3_def Let_def)
  qed
qed

subsection \<open>Splitting and joining\<close>

lemma split_on_none: "c \<notin> set s \<Longrightarrow> split_on c s = (s, [])"
  by (induction s) auto

lemma split_on_first:
  "c \<notin> set u \<Longrightarrow> split_on c (u @ c # v) = (u, fst (split_on c v) # snd (split_on c v))"
  by (induction u) (auto simp add: split_beta)









subsection \<open>Numbers from digit strings\<close>

lemma takeWhile_all: "list_all P xs \<Longrightarrow> takeWhile P xs = xs"
  by (induction xs) simp_all

lemma dropWhile_all: "list_all P xs \<Longrightarrow> dropWhile P xs = []"
  by (induction xs) simp_all

lemma dec_hd_digit: "0 \<le> n \<Longrightarrow> \<exists>c cs. dec n = c # cs \<and> is_digit c"
  using dec_digits [of n] dec_not_Nil [of n] by (cases "dec n") simp_all

lemma parse_unsigned_dec:
  assumes "0 \<le> n"
  shows "parse_unsigned (dec n) = Some (rnd (of_int n))"
proof -
  from dec_hd_digit [OF assms] obtain c cs where d: "dec n = c # cs" "is_digit c" by blast
  then have inf: "dec n \<noteq> ''Infinity''" using is_digit_not_special(4) by auto
  have tw: "takeWhile is_digit (dec n) = dec n" and dw: "dropWhile is_digit (dec n) = []"
    using dec_digits [OF assms] by (simp_all add: takeWhile_all dropWhile_all)
  have e: "digits_value [] = 0" by (simp add: digits_value_def)
  show ?thesis
    using dec_not_Nil [of n]
    by (simp add: parse_unsigned_def Let_def inf tw dw parse_exponent_def e
        digits_value_dec [OF assms])
qed

lemma StringToNumber_dec:
  assumes "0 \<le> n"
  shows "StringToNumber (dec n) = rnd (of_int n)"
proof -
  from dec_hd_digit [OF assms] obtain c cs where d: "dec n = c # cs" "is_digit c" by blast
  then have "c \<noteq> CHR ''-''" "c \<noteq> CHR ''+''" using is_digit_not_special by blast+
  then show ?thesis
    using parse_unsigned_dec [OF assms] d(1) by (simp add: StringToNumber_def)
qed

lemma StringToNumber_minus_dec:
  assumes "0 \<le> n"
  shows "StringToNumber (''-'' @ dec n) = js_neg (rnd (of_int n))"
  using parse_unsigned_dec [OF assms] by (simp add: StringToNumber_def)

lemma StringToNumber_digit:
  assumes "0 \<le> d" and "d < 10"
  shows "StringToNumber [digit_char d] = Fin (of_int d)"
proof -
  have "StringToNumber (dec d) = rnd (of_int d)" using assms(1) by (rule StringToNumber_dec)
  moreover have "rnd (of_int d) = Fin (of_int d)" using assms by (intro rnd_of_int) simp
  ultimately show ?thesis using assms(2) by (simp add: dec_small)
qed

subsection \<open>The shape of a \<^verbatim>\<open>toFixed(3)\<close> result\<close>

lemma last3_digits: "0 \<le> n \<Longrightarrow> list_all is_digit (last3 n)"
  by (simp add: last3_def is_digit_digit_char)

lemma toFixed3_small:
  assumes "\<bar>x\<bar> < 10 ^ 21"
  shows "toFixed3 (Fin x) =
           (if x < 0 then ''-'' else []) @ dec (\<lfloor>\<bar>x\<bar> * 1000 + 1 / 2\<rfloor> div 1000)
             @ ''.'' @ last3 \<lfloor>\<bar>x\<bar> * 1000 + 1 / 2\<rfloor>"
proof -
  have "0 \<le> \<lfloor>\<bar>x\<bar> * 1000 + 1 / 2\<rfloor>" by simp
  from fixed_digits [OF this] assms show ?thesis
    by (simp add: Let_def not_le)
qed

lemma split_fixed:
  assumes "0 \<le> n"
  shows "split_on CHR ''.'' ((if neg then ''-'' else []) @ dec (n div 1000) @ ''.'' @ last3 n)
         = ((if neg then ''-'' else []) @ dec (n div 1000), [last3 n])"
proof -
  have ip: "0 \<le> n div 1000" using assms by simp
  have "CHR ''.'' \<notin> set (dec (n div 1000))"
    using dec_digits [OF ip] is_digit_not_special(1) by (auto simp add: list_all_iff)
  then have a: "CHR ''.'' \<notin> set ((if neg then ''-'' else []) @ dec (n div 1000))" by simp
  have b: "CHR ''.'' \<notin> set (last3 n)"
    using last3_digits [OF assms] is_digit_not_special(1) by (auto simp add: list_all_iff)
  have "split_on CHR ''.'' (((if neg then ''-'' else []) @ dec (n div 1000)) @ CHR ''.'' # last3 n)
        = ((if neg then ''-'' else []) @ dec (n div 1000),
           fst (split_on CHR ''.'' (last3 n)) # snd (split_on CHR ''.'' (last3 n)))"
    using a by (rule split_on_first)
  then show ?thesis by (simp add: split_on_none [OF b])
qed

lemma fraction_words:
  assumes "0 \<le> n"
    and "tw (Fin (of_int (n div 100 mod 10))) = Inr w1"
    and "tw (Fin (of_int (n div 10 mod 10))) = Inr w2"
    and "tw (Fin (of_int (n mod 10))) = Inr w3"
  shows "map_throw (\<lambda>digit. tw (StringToNumber digit)) (split_chars (last3 n))
         = Inr [w1, w2, w3]"
  using assms(2-4) by (simp add: split_chars_def last3_def StringToNumber_digit)

lemma resultInWords_fixed:
  assumes small: "\<bar>x\<bar> < 10 ^ 21"
    and n: "n = \<lfloor>\<bar>x\<bar> * 1000 + 1 / 2\<rfloor>"
    and rep: "rnd (of_int (n div 1000)) = Fin (of_int (n div 1000))"
    and iw: "tw (Fin (if x < 0 then - of_int (n div 1000) else of_int (n div 1000)))
               = Inr integerWords"
    and ds: "tw (Fin (of_int (n div 100 mod 10))) = Inr w1"
      "tw (Fin (of_int (n div 10 mod 10))) = Inr w2"
      "tw (Fin (of_int (n mod 10))) = Inr w3"
  shows "resultInWords tw (Some (Fin x))
         = Inr (title_case (integerWords @ '' point '' @ w1 @ '' '' @ w2 @ '' '' @ w3))"
proof -
  have n0: "0 \<le> n" by (simp add: n)
  then have ip: "0 \<le> n div 1000" by simp
  have fixed: "toFixed3 (Fin x) = (if x < 0 then ''-'' else []) @ dec (n div 1000) @ ''.'' @ last3 n"
    using toFixed3_small [OF small] by (simp only: n)
  have parts: "split_on CHR ''.'' (toFixed3 (Fin x))
               = ((if x < 0 then ''-'' else []) @ dec (n div 1000), [last3 n])"
    unfolding fixed using n0 by (rule split_fixed)
  have num: "StringToNumber ((if x < 0 then ''-'' else []) @ dec (n div 1000))
             = Fin (if x < 0 then - of_int (n div 1000) else of_int (n div 1000))"
    using StringToNumber_dec [OF ip] StringToNumber_minus_dec [OF ip] by (simp add: rep)
  show ?thesis
    by (simp add: resultInWords_def Let_def parts num iw fraction_words [OF n0 ds]
        del: toFixed3.simps)
qed

lemma toUpperCase_char_spec:
  "toUpperCase_char c =
     (if c \<in> set lower_letters
      then upper_letters ! length (takeWhile (\<lambda>d. d \<noteq> c) lower_letters) else c)"
  by (simp add: toUpperCase_char_def lower_letters_def upper_letters_def)


lemma capitalize_spec: "capitalize w = spec_capital w"
  by (cases w) (simp_all add: capitalize_def spec_capital_def toUpperCase_char_spec)


section \<open>The wordifier and the displayed strings\<close>

text \<open>
  Claim C10. Called with the absent result (\<^verbatim>\<open>null\<close>), \<^verbatim>\<open>resultInWords\<close> returns the empty
  string: it neither fails nor calls \<^verbatim>\<open>toWords\<close>.
\<close>

theorem C10_null_gives_empty_string: "resultInWords tw None = Inr ''''"
  by (simp add: resultInWords_def)

subsection \<open>The scenario 12000, 2021, 2022\<close>

lemma scenario_value: "rnd (11033 / 10) = Fin (4852364715701043 / 4398046511104)"
  by code_simp

lemma scenario_calculate:
  "spec_calculate \<lparr>contractValue = Fin 12000, issueYear = Fin 2021, renewalYear = Fin 2022\<rparr>
     = Fin (4852364715701043 / 4398046511104)"
  by code_simp

lemma scenario_result:
  "result (onSubmit \<lparr>contractValue = Fin 12000, issueYear = Fin 2021, renewalYear = Fin 2022\<rparr>
             \<lparr>result = None, errors = Map.empty\<rparr>)
     = Some (rnd (11033 / 10))"
  using onSubmit_spec_calculate
    [of "\<lparr>contractValue = Fin 12000, issueYear = Fin 2021, renewalYear = Fin 2022\<rparr>"
      2021 2022 "\<lparr>result = None, errors = Map.empty\<rparr>"]
  by (simp add: scenario_calculate scenario_value)

lemma scenario_decimal:
  "format_decimal3 (Fin (4852364715701043 / 4398046511104)) = ''1,103.300''"
  by code_simp

lemma scenario_words:
  "resultInWords toWords (Some (Fin (4852364715701043 / 4398046511104)))
     = Inr ''One Thousand, One Hundred Three Point Three Zero Zero''"
  by code_simp

text \<open>
  Claim C2, as the code has it. For the contract value 12000, issue year 2021 and renewal
  year 2022 the computed result is the number 1103.30, the decimal display is
  \<^verbatim>\<open>1,103.300\<close>, and the words display is
  \<^verbatim>\<open>One Thousand, One Hundred Three Point Three Zero Zero\<close>: \<^verbatim>\<open>toWords\<close> puts a comma after
  the thousands group and the title-casing keeps it. (The older revision of the component
  kept as \<^verbatim>\<open>src/unnamed/part_000\<close> formats the value with \<^verbatim>\<open>style: 'currency'\<close> and so shows a
  dollar sign before the same digits.)
\<close>

theorem C2_scenario:
  "result (onSubmit \<lparr>contractValue = Fin 12000, issueYear = Fin 2021, renewalYear = Fin 2022\<rparr>
             \<lparr>result = None, errors = Map.empty\<rparr>)
     = Some (rnd (11033 / 10))
   \<and> format_decimal3 (rnd (11033 / 10)) = ''1,103.300''
   \<and> resultInWords toWords (Some (rnd (11033 / 10)))
       = Inr ''One Thousand, One Hundred Three Point Three Zero Zero''"
  by (simp only: scenario_result scenario_value scenario_decimal scenario_words simp_thms)

theorem C2_counterexample:
  "resultInWords toWords (Some (rnd (11033 / 10)))
     \<noteq> Inr ''One Thousand One Hundred Three Point Three Zero Zero''"
  by (simp add: scenario_value scenario_words)

section \<open>The wordifier on numbers\<close>

lemma is_double_minus: "is_double x \<Longrightarrow> is_double (- x)"
  by (simp add: is_double_def rnd_minus)

lemma capitalize_eq: "capitalize = spec_capital"
  by (rule ext) (rule capitalize_spec)

lemma title_case_spec:
  "title_case phrase = join '' '' (map spec_capital (split_list CHR '' '' phrase))"
  by (simp add: title_case_def capitalize_eq)








lemma toWords_0: "toWords (Fin 0) = Inr ''zero''"
  by code_simp





text \<open>
  Claim C4, as the code has it. \<^verbatim>\<open>resultInWords\<close> has no check for a negative number and
  no error of its own for one. For every negative number above \<open>- 10 ^ 21\<close> it hands the
  integer part of the \<^verbatim>\<open>toFixed(3)\<close> string, minus sign included, to \<^verbatim>\<open>toWords\<close>, and
  whenever \<^verbatim>\<open>toWords\<close> returns ASCII words for it and for the three fraction digits, the
  call returns the title-cased phrase built from them: the sign is rendered, or dropped,
  as \<^verbatim>\<open>toWords\<close> wrote it. (An integer part \<^verbatim>\<open>-0\<close> is the zero of this model.)
\<close>

theorem C4_negative_goes_to_toWords:
  assumes "is_double x" and "x < 0" and "- (10 ^ 21) < x"
    and "n = \<lfloor>- x * 1000 + 1 / 2\<rfloor>"
    and "tw (Fin (- of_int (n div 1000))) = Inr integerWords"
    and "tw (Fin (of_int (n div 100 mod 10))) = Inr w1"
    and "tw (Fin (of_int (n div 10 mod 10))) = Inr w2"
    and "tw (Fin (of_int (n mod 10))) = Inr w3"
    and "list_all is_ascii (integerWords @ w1 @ w2 @ w3)"
  shows "\<exists>out.
      resultInWords tw (Some (Fin x)) = Inr out
    \<and> out = join '' '' (map spec_capital
              (split_list CHR '' '' (integerWords @ '' point '' @ w1 @ '' '' @ w2 @ '' '' @ w3)))"
proof -
  have abs: "\<bar>x\<bar> = - x" using assms(2) by simp
  have "is_double (- x)" using assms(1) by (rule is_double_minus)
  moreover have "0 \<le> - x" using assms(2) by simp
  ultimately have "rnd (of_int (n div 1000)) = Fin (of_int (n div 1000))"
    unfolding assms(4) by (rule integer_part_representable)
  moreover have "tw (Fin (if x < 0 then - of_int (n div 1000) else of_int (n div 1000)))
                 = Inr integerWords"
    using assms(2,5) by simp
  ultimately have "resultInWords tw (Some (Fin x))
      = Inr (title_case (integerWords @ '' point '' @ w1 @ '' '' @ w2 @ '' '' @ w3))"
    using assms(3,4,6-8) by (intro resultInWords_fixed [where n = n]) (simp_all add: abs)
  then show ?thesis by (simp add: title_case_spec)
qed

lemma is_double_minus_5: "is_double (- 5)"
  by code_simp

lemma scaled_5: "\<lfloor>10001 / 2 :: rat\<rfloor> = 5000"
  by code_simp

lemma toWords_minus_5: "toWords (Fin (- 5)) = Inr ''minus five''"
  by code_simp

theorem C4_negative_goes_to_toWords_witness:
  "is_double (- 5) \<and> (- 5 :: rat) < 0 \<and> - (10 ^ 21) < (- 5 :: rat)
   \<and> 5000 = \<lfloor>- (- 5 :: rat) * 1000 + 1 / 2\<rfloor>
   \<and> toWords (Fin (- 5)) = Inr ''minus five''
   \<and> toWords (Fin 0) = Inr ''zero''
   \<and> list_all is_ascii (''minus five'' @ ''zero'' @ ''zero'' @ ''zero'')
   \<and> (\<exists>out.
        resultInWords toWords (Some (Fin (- 5))) = Inr out
      \<and> out = join '' '' (map spec_capital
                (split_list CHR '' '' ''minus five point zero zero zero'')))"
proof -
  have n: "5000 = \<lfloor>- (- 5 :: rat) * 1000 + 1 / 2\<rfloor>" by (simp add: scaled_5)
  have i: "toWords (Fin (- of_int (5000 div 1000))) = Inr ''minus five''"
    by (simp add: toWords_minus_5)
  have d1: "toWords (Fin (of_int (5000 div 100 mod 10))) = Inr ''zero''"
    and d2: "toWords (Fin (of_int (5000 div 10 mod 10))) = Inr ''zero''"
    and d3: "toWords (Fin (of_int (5000 mod 10))) = Inr ''zero''"
    by (simp_all add: toWords_0)
  have neg: "(- 5 :: rat) < 0" and small: "- (10 ^ 21) < (- 5 :: rat)" by simp_all
  have ascii: "list_all is_ascii (''minus five'' @ ''zero'' @ ''zero'' @ ''zero'')"
    by (simp add: is_ascii_def)
  from C4_negative_goes_to_toWords [OF is_double_minus_5 neg small n i d1 d2 d3 ascii]
  have "\<exists>out.
        resultInWords toWords (Some (Fin (- 5))) = Inr out
      \<and> out = join '' '' (map spec_capital
                (split_list CHR '' '' ''minus five point zero zero zero''))"
    by (simp only: append_Cons append_Nil)
  with is_double_minus_5 neg small n toWords_minus_5 toWords_0 ascii show ?thesis
    by (intro conjI)
qed

lemma words_minus_5:
  "resultInWords toWords (Some (Fin (- 5))) = Inr ''Minus Five Point Zero Zero Zero''"
  by code_simp

lemma words_minus_small:
  "resultInWords toWords (Some (Fin (- 1 / 16384))) = Inr ''Zero Point Zero Zero Zero''"
  by code_simp

theorem C4_counterexample:
  "resultInWords toWords (Some (Fin (- 5))) = Inr ''Minus Five Point Zero Zero Zero''
   \<and> resultInWords toWords (Some (Fin (- 1 / 16384))) = Inr ''Zero Point Zero Zero Zero''"
  by (simp only: words_minus_5 words_minus_small simp_thms)

end
